theory Spec2Isabelle
  imports Main
begin

section \<open>Strings of the source\<close>

text \<open>
  A Python \<open>str\<close> is a sequence of Unicode code points; it is modelled as the list of
  those code points. The bullet glyph the source prepends (U+2022) is one element of such
  a list. \<open>str\<close> turns an ASCII literal into a code-point list.
\<close>

type_synonym pystr = "nat list"

definition str :: "string \<Rightarrow> pystr" where
  "str s = map of_char s"

text \<open>
  \<open>c.isspace()\<close> of CPython, which decides what \<open>str.strip()\<close> removes: the
  code points of bidirectional type WS, B or S, and of category Zs.
\<close>

definition isspace :: "nat \<Rightarrow> bool" where
  "isspace c \<longleftrightarrow>
     (9 \<le> c \<and> c \<le> 13) \<or> (28 \<le> c \<and> c \<le> 32) \<or> c = 133 \<or> c = 160 \<or> c = 5760 \<or>
     (8192 \<le> c \<and> c \<le> 8202) \<or> c = 8232 \<or> c = 8233 \<or> c = 8239 \<or> c = 8287 \<or> c = 12288"

text \<open>\<open>s.strip()\<close>: whitespace removed at both ends.\<close>

definition strip :: "pystr \<Rightarrow> pystr" where
  "strip s = rev (dropWhile isspace (rev (dropWhile isspace s)))"

text \<open>\<open>s.startswith(p)\<close> and \<open>s.endswith(p)\<close>.\<close>

fun startswith :: "pystr \<Rightarrow> pystr \<Rightarrow> bool" where
  "startswith s [] = True"
| "startswith [] (p # ps) = False"
| "startswith (c # cs) (p # ps) = (c = p \<and> startswith cs ps)"

definition endswith :: "pystr \<Rightarrow> pystr \<Rightarrow> bool" where
  "endswith s p = startswith (rev s) (rev p)"

text \<open>
  \<open>s.find(p)\<close> as the text after the leftmost occurrence of \<open>p\<close> in \<open>s\<close>, or
  \<open>None\<close> where \<open>p\<close> does not occur.
\<close>

fun after_first :: "pystr \<Rightarrow> pystr \<Rightarrow> pystr option" where
  "after_first p [] = (if p = [] then Some [] else None)"
| "after_first p (c # cs) =
     (if startswith (c # cs) p then Some (drop (length p) (c # cs)) else after_first p cs)"

text \<open>\<open>p in s\<close>.\<close>

definition contains :: "pystr \<Rightarrow> pystr \<Rightarrow> bool" where
  "contains s p = (after_first p s \<noteq> None)"

text \<open>\<open>text.split('\n')\<close>: never empty, one more line than there are newlines.\<close>

fun split_lines :: "pystr \<Rightarrow> pystr list" where
  "split_lines [] = [] # []"
| "split_lines (c # cs) =
     (if c = 10 then [] # split_lines cs
      else (case split_lines cs of [] \<Rightarrow> [c] # [] | l # ls \<Rightarrow> (c # l) # ls))"

text \<open>\<open>' '.join(xs)\<close>.\<close>

fun join_space :: "pystr list \<Rightarrow> pystr" where
  "join_space [] = []"
| "join_space [x] = x"
| "join_space (x # y # ys) = x @ 32 # join_space (y # ys)"

section \<open>The bold transform\<close>

text \<open>
  \<open>find_stars s\<close> splits \<open>s\<close> at its leftmost \<open>**\<close>: the text before it and the
  text after it.
\<close>

fun find_stars :: "pystr \<Rightarrow> (pystr \<times> pystr) option" where
  "find_stars [] = None"
| "find_stars [c] = None"
| "find_stars (c # d # cs) =
     (if c = 42 \<and> d = 42 then Some ([], cs)
      else (case find_stars (d # cs) of None \<Rightarrow> None | Some (b, a) \<Rightarrow> Some (c # b, a)))"

text \<open>
  \<open>re.sub(r'\*\*(.*?)\*\*', r'<b>\1</b>', text)\<close> on a text without newline (a line
  of \<open>split('\n')\<close>): the scan goes left to right; at a \<open>**\<close> the lazy group takes
  the text up to the next \<open>**\<close>, the match is replaced and the scan resumes after it;
  where no match starts, the character is copied and the scan moves on by one.
\<close>

function process_bold_text :: "pystr \<Rightarrow> pystr" where
  "process_bold_text [] = []"
| "process_bold_text [c] = [c]"
| "process_bold_text (c # d # cs) =
     (if c = 42 \<and> d = 42 then
        (case find_stars cs of
           Some (span, rest) \<Rightarrow> str ''<b>'' @ span @ str ''</b>'' @ process_bold_text rest
         | None \<Rightarrow> c # process_bold_text (d # cs))
      else c # process_bold_text (d # cs))"
  by pat_completeness auto
termination
proof -
  have shorter: "find_stars s = Some (b, a) \<Longrightarrow> length a < length s" for s b a
    by (induction s arbitrary: b a rule: find_stars.induct)
       (auto split: if_splits option.splits)
  show ?thesis
    by (relation "measure length") (auto dest: shorter)
qed

section \<open>Title extraction\<close>

text \<open>
  One iteration of the loop of \<open>extract_title\<close> on a line: \<open>Some t\<close> where the
  iteration returns \<open>t\<close>, \<open>None\<close> where the loop goes on. The search
  \<open>re.search(r'# BOOK SUMMARY: (.+)', line)\<close> takes the leftmost occurrence of the
  literal that is followed by at least one character and returns the rest of the line.
\<close>

fun title_search :: "pystr \<Rightarrow> pystr option" where
  "title_search [] = None"
| "title_search (c # cs) =
     (if startswith (c # cs) (str ''# BOOK SUMMARY: '') \<and> drop 16 (c # cs) \<noteq> []
      then Some (drop 16 (c # cs)) else title_search cs)"

definition title_of_line :: "pystr \<Rightarrow> pystr option" where
  "title_of_line raw =
     (let line = strip raw in
      if startswith line (str ''# '') \<and> contains line (str ''BOOK SUMMARY'') then
        title_search line
      else if startswith line (str ''# '') \<and> line \<noteq> str ''# BOOK SUMMARY'' then
        Some (strip (drop 2 line))
      else None)"

fun first_title :: "pystr list \<Rightarrow> pystr" where
  "first_title [] = str ''eBook Summary''"
| "first_title (l # ls) =
     (case title_of_line l of Some t \<Rightarrow> t | None \<Rightarrow> first_title ls)"

definition extract_title :: "pystr \<Rightarrow> pystr" where
  "extract_title text = first_title (split_lines text)"

section \<open>Blocks and the line loop\<close>

text \<open>
  The story is a list of flowables: \<open>Paragraph(text, self.styles[key])\<close> and
  \<open>Spacer(width, height)\<close>. The style is the key the source looks up.
\<close>

datatype style = Title | Body | Heading1 | Heading2 | Heading3 | Bullet | Quote

datatype flowable = Paragraph pystr style | Spacer nat nat

text \<open>
  \<open>Paragraph\<close> is the constructor of the rendering library, which is not part of the
  source. It parses its text as markup when the block is built and raises \<open>ValueError\<close>
  on a text it rejects; the parser catches nothing. Which texts the library accepts, in
  which style, is the parameter \<open>accepts\<close>.
\<close>

datatype error = ValueError

type_synonym acceptor = "pystr \<Rightarrow> style \<Rightarrow> bool"

definition build_paragraph :: "acceptor \<Rightarrow> pystr \<Rightarrow> style \<Rightarrow> error + flowable" where
  "build_paragraph accepts t s = (if accepts t s then Inr (Paragraph t s) else Inl ValueError)"

record parse_state =
  story :: "flowable list"
  in_bullet_list :: bool
  current_paragraph :: "pystr list"

text \<open>
  The block the heading, bullet and quote branches all start with:
  \<open>if current_paragraph: story.append(Paragraph(' '.join(current_paragraph), Body));
  current_paragraph = []\<close>.
\<close>

definition flush :: "acceptor \<Rightarrow> parse_state \<Rightarrow> error + parse_state" where
  "flush accepts st =
     (if current_paragraph st \<noteq> [] then
        (case build_paragraph accepts (join_space (current_paragraph st)) Body of
           Inl e \<Rightarrow> Inl e
         | Inr b \<Rightarrow> Inr (st\<lparr>story := story st @ [b], current_paragraph := []\<rparr>))
      else Inr st)"

text \<open>
  What follows the flush in those branches:
  \<open>story.append(Paragraph(t, self.styles[s])); in_bullet_list = f\<close>.
\<close>

definition flush_then_emit ::
  "acceptor \<Rightarrow> pystr \<Rightarrow> style \<Rightarrow> bool \<Rightarrow> parse_state \<Rightarrow> error + parse_state" where
  "flush_then_emit accepts t s f st =
     (case flush accepts st of
        Inl e \<Rightarrow> Inl e
      | Inr st1 \<Rightarrow>
          (case build_paragraph accepts t s of
             Inl e \<Rightarrow> Inl e
           | Inr b \<Rightarrow> Inr (st1\<lparr>story := story st1 @ [b], in_bullet_list := f\<rparr>)))"

text \<open>
  The body of the \<open>for line in lines\<close> loop of \<open>process_content\<close>: the state after
  the line, or the error the line raises. Code point 34 is the straight double quote,
  8226 the bullet glyph.
\<close>

definition process_line :: "acceptor \<Rightarrow> parse_state \<Rightarrow> pystr \<Rightarrow> error + parse_state" where
  "process_line accepts st raw =
     (let line = strip raw in
      if line = [] then
        (if current_paragraph st \<noteq> [] then
           (case build_paragraph accepts (join_space (current_paragraph st)) Body of
              Inl e \<Rightarrow> Inl e
            | Inr b \<Rightarrow>
                Inr (st\<lparr>story := story st @ [b, Spacer 1 6],
                       in_bullet_list := False,
                       current_paragraph := []\<rparr>))
         else Inr (st\<lparr>in_bullet_list := False\<rparr>))
      else if startswith line (str ''# BOOK SUMMARY'') then Inr st
      else if startswith line (str ''###'') then
        flush_then_emit accepts (strip (drop 3 line)) Heading3 False st
      else if startswith line (str ''##'') then
        flush_then_emit accepts (strip (drop 2 line)) Heading2 False st
      else if startswith line (str ''#'') then
        flush_then_emit accepts (strip (drop 1 line)) Heading1 False st
      else if startswith line (str ''*'') \<or> startswith line (str ''-'') then
        flush_then_emit accepts (8226 # 32 # process_bold_text (strip (drop 1 line)))
          Bullet True st
      else if startswith line (str ''>'') then
        (let quote_text = strip (drop 1 line);
             quote_text' =
               (if startswith quote_text [34] \<and> endswith quote_text [34]
                then butlast (drop 1 quote_text) else quote_text)
         in flush_then_emit accepts (34 # quote_text' @ [34]) Quote False st)
      else
        (let st' = (if in_bullet_list st
                    then st\<lparr>story := story st @ [Spacer 1 6], in_bullet_list := False\<rparr>
                    else st)
         in Inr (st'\<lparr>current_paragraph :=
                        current_paragraph st' @ [process_bold_text line]\<rparr>)))"

text \<open>The loop: it stops at the first line that raises.\<close>

fun run_lines :: "acceptor \<Rightarrow> parse_state \<Rightarrow> pystr list \<Rightarrow> error + parse_state" where
  "run_lines accepts st [] = Inr st"
| "run_lines accepts st (l # ls) =
     (case process_line accepts st l of
        Inl e \<Rightarrow> Inl e
      | Inr st' \<Rightarrow> run_lines accepts st' ls)"

text \<open>
  \<open>process_content\<close>. The date the source formats from the clock,
  \<open>datetime.now().strftime('%B %d, %Y')\<close>, is the parameter \<open>today\<close>. The title block
  is built first, then the date line, then the lines are processed, then what is left in
  the buffer is flushed.
\<close>

definition initial_state :: "acceptor \<Rightarrow> pystr \<Rightarrow> pystr \<Rightarrow> error + parse_state" where
  "initial_state accepts today text =
     (case build_paragraph accepts (extract_title text) Title of
        Inl e \<Rightarrow> Inl e
      | Inr title_block \<Rightarrow>
          (case build_paragraph accepts (str ''Generated on '' @ today) Body of
             Inl e \<Rightarrow> Inl e
           | Inr date_block \<Rightarrow>
               Inr \<lparr>story = [title_block, Spacer 1 20, date_block, Spacer 1 30],
                    in_bullet_list = False,
                    current_paragraph = []\<rparr>))"

definition scan :: "acceptor \<Rightarrow> pystr \<Rightarrow> pystr \<Rightarrow> error + parse_state" where
  "scan accepts today text =
     (case initial_state accepts today text of
        Inl e \<Rightarrow> Inl e
      | Inr st \<Rightarrow> run_lines accepts st (split_lines text))"

definition process_content :: "acceptor \<Rightarrow> pystr \<Rightarrow> pystr \<Rightarrow> error + flowable list" where
  "process_content accepts today text =
     (case scan accepts today text of
        Inl e \<Rightarrow> Inl e
      | Inr st \<Rightarrow>
          (case flush accepts st of
             Inl e \<Rightarrow> Inl e
           | Inr st' \<Rightarrow> Inr (story st')))"

section \<open>Facts about the string operations\<close>

lemmas eval_defs = str_def strip_def isspace_def contains_def endswith_def
  title_of_line_def extract_title_def build_paragraph_def flush_def flush_then_emit_def
  process_line_def initial_state_def scan_def process_content_def

lemma startswith_append: "startswith s p \<Longrightarrow> s = p @ drop (length p) s"
  by (induction s p rule: startswith.induct) auto

lemma startswith_self: "startswith (p @ r) p"
  by (induction p) auto

text \<open>\<open>after_first\<close> returns what follows an occurrence, and the leftmost one.\<close>

lemma after_first_occurs: "after_first p s = Some t \<Longrightarrow> \<exists>a. s = a @ p @ t"
proof (induction s)
  case Nil
  then show ?case by (auto split: if_splits)
next
  case (Cons c cs)
  show ?case
  proof (cases "startswith (c # cs) p")
    case True
    with Cons.prems have "t = drop (length p) (c # cs)" by simp
    with startswith_append[OF True] have "c # cs = [] @ p @ t" by simp
    then show ?thesis by blast
  next
    case False
    with Cons obtain a where "cs = a @ p @ t" by auto
    then have "c # cs = (c # a) @ p @ t" by simp
    then show ?thesis by blast
  qed
qed

lemma after_first_leftmost:
  "after_first p s = Some t \<Longrightarrow> s = a @ p @ t' \<Longrightarrow> length t' \<le> length t"
proof (induction s arbitrary: a)
  case Nil
  then show ?case by (auto split: if_splits)
next
  case (Cons c cs)
  show ?case
  proof (cases "startswith (c # cs) p")
    case True
    with Cons.prems(1) have "t = drop (length p) (c # cs)" by simp
    with Cons.prems(2) show ?thesis by simp
  next
    case False
    with Cons.prems(2) startswith_self[of p t'] have "a \<noteq> []" by auto
    with Cons.prems(2) obtain a' where "cs = a' @ p @ t'" by (cases a) auto
    with Cons False show ?thesis by auto
  qed
qed

lemma after_first_empty_rest:
  assumes "after_first p s = Some []" "p \<noteq> []"
  shows "s \<noteq> [] \<and> last s = last p"
proof -
  from after_first_occurs[OF assms(1)] obtain a where "s = a @ p" by auto
  with assms(2) show ?thesis by simp
qed

text \<open>A stripped line does not end in whitespace.\<close>

lemma strip_last: "strip s \<noteq> [] \<Longrightarrow> \<not> isspace (last (strip s))"
  unfolding strip_def
  by (metis hd_dropWhile last_rev rev_is_Nil_conv)

section \<open>Facts about the bold transform\<close>

lemma find_stars_tl_None: "find_stars (c # s) = None \<Longrightarrow> find_stars s = None"
  by (cases s) (auto split: if_splits option.splits)

text \<open>\<open>find_stars\<close> splits at a \<open>**\<close>, and at the leftmost one.\<close>

lemma find_stars_split:
  "find_stars s = Some (b, a) \<Longrightarrow> s = b @ 42 # 42 # a \<and> find_stars (b @ [42]) = None"
proof (induction s arbitrary: b rule: find_stars.induct)
  case 1
  then show ?case by simp
next
  case (2 c)
  then show ?case by simp
next
  case (3 c d cs)
  show ?case
  proof (cases "c = 42 \<and> d = 42")
    case True
    with 3 show ?thesis by simp
  next
    case False
    with "3.prems" obtain b' where b: "find_stars (d # cs) = Some (b', a)" "b = c # b'"
      by (auto split: option.splits)
    from "3.IH"[OF False b(1)] have eq: "d # cs = b' @ 42 # 42 # a"
      and no: "find_stars (b' @ [42]) = None" by auto
    show ?thesis
    proof (cases b')
      case Nil
      with eq False b no show ?thesis by auto
    next
      case (Cons x xs)
      with eq have "x = d" by simp
      with Cons eq False b no show ?thesis by auto
    qed
  qed
qed

lemma find_stars_leftmost:
  "find_stars (b @ [42]) = None \<Longrightarrow> find_stars (b @ 42 # 42 # a) = Some (b, a)"
proof (induction b)
  case Nil
  then show ?case by simp
next
  case (Cons c b)
  from Cons.prems have "find_stars (c # (b @ [42])) = None" by simp
  then have "find_stars (b @ [42]) = None" by (rule find_stars_tl_None)
  with Cons.IH have ih: "find_stars (b @ 42 # 42 # a) = Some (b, a)" by simp
  show ?case
  proof (cases b)
    case Nil
    with Cons.prems have "c \<noteq> 42" by (auto split: if_splits)
    with Nil show ?thesis by simp
  next
    case (Cons d ds)
    with Cons.prems have "\<not> (c = 42 \<and> d = 42)" by (auto split: if_splits)
    with Cons ih show ?thesis by auto
  qed
qed

lemma bold_no_stars: "find_stars s = None \<Longrightarrow> process_bold_text s = s"
  by (induction s rule: process_bold_text.induct)
     (auto split: if_splits option.splits)

lemma bold_star_no_stars: "find_stars s = None \<Longrightarrow> process_bold_text (42 # s) = 42 # s"
proof (induction s)
  case Nil
  then show ?case by simp
next
  case (Cons c s)
  from Cons.prems have tl: "find_stars s = None" by (rule find_stars_tl_None)
  show ?case
  proof (cases "c = 42")
    case True
    with tl Cons.IH show ?thesis by simp
  next
    case False
    with Cons.prems show ?thesis by (simp add: bold_no_stars)
  qed
qed

lemma bold_prefix:
  "find_stars s = Some (pre, s1) \<Longrightarrow>
   process_bold_text s = pre @ process_bold_text (42 # 42 # s1)"
proof (induction s arbitrary: pre rule: find_stars.induct)
  case 1
  then show ?case by simp
next
  case (2 c)
  then show ?case by simp
next
  case (3 c d cs)
  show ?case
  proof (cases "c = 42 \<and> d = 42")
    case True
    with 3 show ?thesis by simp
  next
    case False
    with "3.prems" obtain b where b: "find_stars (d # cs) = Some (b, s1)" "pre = c # b"
      by (auto split: option.splits)
    from "3.IH"[OF False b(1)] False b(2) show ?thesis by auto
  qed
qed

text \<open>
  C3, as the claim states it, fails: the lazy group \<open>(.*?)\<close> also matches the empty
  span, so the four stars \<open>****\<close> are replaced by an empty emphasis pair.
\<close>

theorem bold_empty_span_replaced:
  "process_bold_text (str ''****'') = str ''<b></b>'' \<and>
   process_bold_text (str ''****'') \<noteq> str ''****''"
  by (simp add: str_def)

text \<open>
  C3, amended. A text without \<open>**\<close> is returned as it is (single stars stay); a text
  with one \<open>**\<close> and none after it is returned as it is (an unpaired \<open>**\<close> stays); and
  where \<open>pre\<close> reaches to the leftmost \<open>**\<close> and \<open>span\<close>, possibly empty, from there
  to the next \<open>**\<close>, the occurrence becomes \<open><b>span</b>\<close> and the transform goes on
  with the text after it, left to right. A text is free of \<open>**\<close> where
  \<open>find_stars\<close> gives \<open>None\<close>; \<open>find_stars (pre @ [42]) = None\<close> says that no
  \<open>**\<close> starts inside \<open>pre\<close>.
\<close>

theorem bold_rule:
  "(find_stars s = None \<longrightarrow> process_bold_text s = s) \<and>
   (find_stars (pre @ [42]) = None \<and> find_stars s1 = None \<longrightarrow>
      process_bold_text (pre @ 42 # 42 # s1) = pre @ 42 # 42 # s1) \<and>
   (find_stars (pre @ [42]) = None \<and> find_stars (span @ [42]) = None \<longrightarrow>
      process_bold_text (pre @ 42 # 42 # span @ 42 # 42 # rest) =
        pre @ str ''<b>'' @ span @ str ''</b>'' @ process_bold_text rest)"
proof (intro conjI impI)
  assume "find_stars s = None"
  then show "process_bold_text s = s" by (rule bold_no_stars)
next
  assume a: "find_stars (pre @ [42]) = None \<and> find_stars s1 = None"
  then have "find_stars (pre @ 42 # 42 # s1) = Some (pre, s1)"
    by (simp add: find_stars_leftmost)
  then have "process_bold_text (pre @ 42 # 42 # s1) = pre @ process_bold_text (42 # 42 # s1)"
    by (rule bold_prefix)
  also from a have "process_bold_text (42 # 42 # s1) = 42 # 42 # s1"
    by (simp add: bold_star_no_stars)
  finally show "process_bold_text (pre @ 42 # 42 # s1) = pre @ 42 # 42 # s1" .
next
  assume a: "find_stars (pre @ [42]) = None \<and> find_stars (span @ [42]) = None"
  let ?s1 = "span @ 42 # 42 # rest"
  from a have "find_stars (pre @ 42 # 42 # ?s1) = Some (pre, ?s1)"
    by (simp add: find_stars_leftmost)
  then have "process_bold_text (pre @ 42 # 42 # ?s1) = pre @ process_bold_text (42 # 42 # ?s1)"
    by (rule bold_prefix)
  moreover from a have "find_stars ?s1 = Some (span, rest)"
    by (simp add: find_stars_leftmost)
  then have "process_bold_text (42 # 42 # ?s1) =
      str ''<b>'' @ span @ str ''</b>'' @ process_bold_text rest"
    by simp
  ultimately show "process_bold_text (pre @ 42 # 42 # span @ 42 # 42 # rest) =
        pre @ str ''<b>'' @ span @ str ''</b>'' @ process_bold_text rest"
    by simp
qed

text \<open>
  The rule at \<open>a*b\<close> (no \<open>**\<close>), \<open>a **b\<close> (an unpaired \<open>**\<close>) and
  \<open>a **b** c\<close> (one occurrence).
\<close>

theorem bold_rule_witness:
  "find_stars (str ''a*b'') = None \<and>
   find_stars (str ''a '' @ [42]) = None \<and> find_stars (str ''b'') = None \<and>
   find_stars (str ''b'' @ [42]) = None \<and>
   process_bold_text (str ''a*b'') = str ''a*b'' \<and>
   process_bold_text (str ''a **b'') = str ''a **b'' \<and>
   process_bold_text (str ''a **b** c'') = str ''a <b>b</b> c''"
  using bold_rule [of "str ''a*b''" "str ''a ''" "str ''b''" "str ''b''" "str '' c''"]
  by (simp add: str_def)

section \<open>Facts about title extraction\<close>

lemma title_search_short: "length s \<le> 16 \<Longrightarrow> title_search s = None"
  by (induction s) simp_all

text \<open>
  The search of the regular expression is the text after the leftmost occurrence of the
  literal, where that text is not empty.
\<close>

lemma title_search_after_first:
  "title_search s =
     (case after_first (str ''# BOOK SUMMARY: '') s of
        None \<Rightarrow> None | Some t \<Rightarrow> if t = [] then None else Some t)"
proof (induction s)
  case Nil
  then show ?case by (simp add: str_def)
next
  case (Cons c cs)
  have len: "length (str ''# BOOK SUMMARY: '') = 16" by (simp add: str_def)
  show ?case
  proof (cases "startswith (c # cs) (str ''# BOOK SUMMARY: '')")
    case True
    show ?thesis
    proof (cases "drop 16 (c # cs) = []")
      case e: True
      then have "length cs \<le> 16" by simp
      then have "title_search cs = None" by (rule title_search_short)
      with True e len show ?thesis by simp
    next
      case False
      with True len show ?thesis by simp
    qed
  next
    case False
    with Cons show ?thesis by simp
  qed
qed

text \<open>
  What one line gives. The second test of the source, that the line is not the bare
  literal \<open># BOOK SUMMARY\<close>, decides nothing: a line that reaches it and starts with
  \<open># \<close> does not contain \<open>BOOK SUMMARY\<close>, so every heading line that contains
  \<open>BOOK SUMMARY\<close> without the pattern is passed over, not only the bare literal.
\<close>

lemma title_of_line_rule:
  "title_of_line raw =
     (if \<not> startswith (strip raw) (str ''# '') then None
      else if \<not> contains (strip raw) (str ''BOOK SUMMARY'')
        then Some (strip (drop 2 (strip raw)))
      else after_first (str ''# BOOK SUMMARY: '') (strip raw))"
proof -
  have a: "after_first (str ''# BOOK SUMMARY: '') (strip raw) \<noteq> Some []"
  proof
    assume "after_first (str ''# BOOK SUMMARY: '') (strip raw) = Some []"
    then have "strip raw \<noteq> [] \<and> last (strip raw) = last (str ''# BOOK SUMMARY: '')"
      by (rule after_first_empty_rest) (simp add: str_def)
    then have "strip raw \<noteq> []" "isspace (last (strip raw))"
      by (simp_all add: str_def isspace_def)
    with strip_last show False by blast
  qed
  have b: "contains (str ''# BOOK SUMMARY'') (str ''BOOK SUMMARY'')"
    by (simp add: contains_def str_def)
  show ?thesis
    using a b
    by (auto simp add: title_of_line_def Let_def title_search_after_first
        split: option.splits)
qed

text \<open>
  C2. The code departs from the claim at two documents. The heading
  \<open># BOOK SUMMARY NOTES\<close> is a primary heading and not the bare literal, so the claim
  gives the title \<open>BOOK SUMMARY NOTES\<close>; the code passes the line over and returns the
  fallback. The heading \<open># BOOK SUMMARY:  X\<close>, with two spaces after the colon, matches
  the pattern, so the claim gives the trimmed title \<open>X\<close>; the code returns the text
  with its leading space.
\<close>

theorem title_heading_passed_over:
  "extract_title (str ''# BOOK SUMMARY NOTES'') = str ''eBook Summary'' \<and>
   extract_title (str ''# BOOK SUMMARY:  X'') = str '' X''"
  by (simp add: eval_defs)

section \<open>Facts about the line loop\<close>

text \<open>
  Flush and block together: the flush fails on a rejected buffer, the block on a rejected
  text; otherwise the buffer, where there is one, and the block are appended.
\<close>

lemma flush_then_emit_eq:
  "flush_then_emit accepts t s f st =
     (if current_paragraph st \<noteq> [] \<and> \<not> accepts (join_space (current_paragraph st)) Body
      then Inl ValueError
      else if \<not> accepts t s then Inl ValueError
      else Inr \<lparr>story = story st @
                   (if current_paragraph st = [] then []
                    else [Paragraph (join_space (current_paragraph st)) Body]) @
                   [Paragraph t s],
                in_bullet_list = f, current_paragraph = []\<rparr>)"
  by (simp add: flush_then_emit_def flush_def build_paragraph_def)

text \<open>The branch a trimmed line takes, by its prefix.\<close>

lemma skip_line:
  assumes "startswith (strip raw) (str ''# BOOK SUMMARY'')"
  shows "process_line accepts st raw = Inr st"
proof (cases "strip raw")
  case Nil
  with assms show ?thesis by (simp add: str_def)
next
  case (Cons c cs)
  with assms show ?thesis by (simp add: process_line_def)
qed

lemma heading3_line:
  assumes "startswith (strip raw) (str ''###'')"
  shows "process_line accepts st raw =
           flush_then_emit accepts (strip (drop 3 (strip raw))) Heading3 False st"
proof (cases "strip raw")
  case Nil
  with assms show ?thesis by (simp add: str_def)
next
  case (Cons c cs)
  with assms show ?thesis
    by (cases cs) (auto simp add: process_line_def str_def)
qed

lemma heading2_line:
  assumes "startswith (strip raw) (str ''##'')" "\<not> startswith (strip raw) (str ''###'')"
  shows "process_line accepts st raw =
           flush_then_emit accepts (strip (drop 2 (strip raw))) Heading2 False st"
proof (cases "strip raw")
  case Nil
  with assms show ?thesis by (simp add: str_def)
next
  case (Cons c cs)
  with assms show ?thesis
    by (cases cs) (auto simp add: process_line_def str_def)
qed

lemma heading1_line:
  assumes "startswith (strip raw) (str ''#'')" "\<not> startswith (strip raw) (str ''##'')"
    "\<not> startswith (strip raw) (str ''# BOOK SUMMARY'')"
  shows "process_line accepts st raw =
           flush_then_emit accepts (strip (drop 1 (strip raw))) Heading1 False st"
proof (cases "strip raw")
  case Nil
  with assms show ?thesis by (simp add: str_def)
next
  case (Cons c cs)
  with assms(1) have c: "c = 35" by (simp add: str_def)
  from assms(2) Cons c have n3: "\<not> startswith (strip raw) (str ''###'')"
    by (cases cs) (auto simp add: str_def)
  from assms Cons n3 show ?thesis
    by (simp add: process_line_def)
qed

lemma bullet_line:
  assumes "startswith (strip raw) (str ''*'') \<or> startswith (strip raw) (str ''-'')"
  shows "process_line accepts st raw =
           flush_then_emit accepts
             (8226 # 32 # process_bold_text (strip (drop 1 (strip raw)))) Bullet True st"
proof (cases "strip raw")
  case Nil
  with assms show ?thesis by (simp add: str_def)
next
  case (Cons c cs)
  with assms have "c = 42 \<or> c = 45" by (simp add: str_def)
  with Cons show ?thesis
    by (auto simp add: process_line_def str_def)
qed

lemma quote_line:
  assumes "startswith (strip raw) (str ''>'')"
  shows "process_line accepts st raw =
           flush_then_emit accepts
             (34 # (if startswith (strip (drop 1 (strip raw))) [34] \<and>
                       endswith (strip (drop 1 (strip raw))) [34]
                    then butlast (drop 1 (strip (drop 1 (strip raw))))
                    else strip (drop 1 (strip raw))) @ [34]) Quote False st"
proof (cases "strip raw")
  case Nil
  with assms show ?thesis by (simp add: str_def)
next
  case (Cons c cs)
  with assms have "c = 62" by (simp add: str_def)
  with Cons show ?thesis
    by (simp add: process_line_def str_def Let_def)
qed

lemma text_line:
  assumes "strip raw \<noteq> []" "\<not> startswith (strip raw) (str ''#'')"
    "\<not> startswith (strip raw) (str ''*'')" "\<not> startswith (strip raw) (str ''-'')"
    "\<not> startswith (strip raw) (str ''>'')"
  shows "process_line accepts st raw =
     Inr (st\<lparr>story := story st @ (if in_bullet_list st then [Spacer 1 6] else []),
            in_bullet_list := False,
            current_paragraph := current_paragraph st @ [process_bold_text (strip raw)]\<rparr>)"
proof (cases "strip raw")
  case Nil
  with assms show ?thesis by simp
next
  case (Cons c cs)
  with assms have c: "c \<noteq> 35" "c \<noteq> 42" "c \<noteq> 45" "c \<noteq> 62" by (simp_all add: str_def)
  with Cons show ?thesis
    by (cases "in_bullet_list st") (simp_all add: process_line_def str_def Let_def)
qed

lemma blank_line:
  assumes "strip raw = []"
  shows "process_line accepts st raw =
     (if current_paragraph st = [] then Inr (st\<lparr>in_bullet_list := False\<rparr>)
      else if accepts (join_space (current_paragraph st)) Body then
        Inr (st\<lparr>story := story st @
                       [Paragraph (join_space (current_paragraph st)) Body, Spacer 1 6],
               in_bullet_list := False, current_paragraph := []\<rparr>)
      else Inl ValueError)"
  using assms by (simp add: process_line_def build_paragraph_def)

text \<open>
  Every line is of one of these kinds, so a line that returns only appends to the story,
  and never a block of the title style.
\<close>

lemma process_line_appends:
  assumes "process_line accepts st l = Inr st'"
  shows "\<exists>ys. story st' = story st @ ys \<and> (\<forall>t. Paragraph t Title \<notin> set ys)"
proof -
  consider (blank) "strip l = []"
    | (skip) "startswith (strip l) (str ''# BOOK SUMMARY'')"
    | (h3) "startswith (strip l) (str ''###'')"
    | (h2) "startswith (strip l) (str ''##'')" "\<not> startswith (strip l) (str ''###'')"
    | (h1) "startswith (strip l) (str ''#'')" "\<not> startswith (strip l) (str ''##'')"
        "\<not> startswith (strip l) (str ''# BOOK SUMMARY'')"
    | (bullet) "startswith (strip l) (str ''*'') \<or> startswith (strip l) (str ''-'')"
    | (quote) "startswith (strip l) (str ''>'')"
    | (plain) "strip l \<noteq> []" "\<not> startswith (strip l) (str ''#'')"
        "\<not> startswith (strip l) (str ''*'')" "\<not> startswith (strip l) (str ''-'')"
        "\<not> startswith (strip l) (str ''>'')"
    by blast
  then show ?thesis
  proof cases
    case blank
    from blank_line[OF blank, of accepts st] assms show ?thesis
      by (auto split: if_splits)
  next
    case skip
    from skip_line[OF skip, of accepts st] assms show ?thesis by auto
  next
    case h3
    from heading3_line[OF h3, of accepts st] assms show ?thesis
      by (auto simp add: flush_then_emit_eq split: if_splits)
  next
    case h2
    from heading2_line[OF h2, of accepts st] assms show ?thesis
      by (auto simp add: flush_then_emit_eq split: if_splits)
  next
    case h1
    from heading1_line[OF h1, of accepts st] assms show ?thesis
      by (auto simp add: flush_then_emit_eq split: if_splits)
  next
    case bullet
    from bullet_line[OF bullet, of accepts st] assms show ?thesis
      by (auto simp add: flush_then_emit_eq split: if_splits)
  next
    case quote
    from quote_line[OF quote, of accepts st] assms show ?thesis
      by (auto simp add: flush_then_emit_eq split: if_splits)
  next
    case plain
    from text_line[OF plain, of accepts st] assms show ?thesis by auto
  qed
qed

lemma run_lines_appends:
  "run_lines accepts st ls = Inr st' \<Longrightarrow>
   \<exists>ys. story st' = story st @ ys \<and> (\<forall>t. Paragraph t Title \<notin> set ys)"
proof (induction ls arbitrary: st)
  case Nil
  then show ?case by simp
next
  case (Cons l ls)
  from Cons.prems obtain st1 where
    st1: "process_line accepts st l = Inr st1" "run_lines accepts st1 ls = Inr st'"
    by (auto split: sum.splits)
  from process_line_appends[OF st1(1)] obtain ys where
    ys: "story st1 = story st @ ys" "\<forall>t. Paragraph t Title \<notin> set ys" by blast
  from Cons.IH[OF st1(2)] obtain zs where
    zs: "story st' = story st1 @ zs" "\<forall>t. Paragraph t Title \<notin> set zs" by blast
  from ys zs have "story st' = story st @ (ys @ zs) \<and>
     (\<forall>t. Paragraph t Title \<notin> set (ys @ zs))" by simp
  then show ?case by blast
qed

lemma flush_appends:
  "flush accepts st = Inr st' \<Longrightarrow>
   \<exists>ys. story st' = story st @ ys \<and> (\<forall>t. Paragraph t Title \<notin> set ys)"
  by (auto simp add: flush_def build_paragraph_def split: if_splits)

lemma run_lines_snoc:
  "run_lines accepts st (ls @ [l]) =
     (case run_lines accepts st ls of
        Inl e \<Rightarrow> Inl e
      | Inr st1 \<Rightarrow> process_line accepts st1 l)"
  by (induction ls arbitrary: st) (auto split: sum.splits)

lemma split_lines_not_empty: "split_lines s \<noteq> []"
  by (induction s) (auto split: list.splits)

text \<open>
  A run with a constructor that accepts every text never fails, and a run with any
  constructor follows it as long as the blocks it appends are accepted.
\<close>

lemma process_line_follows:
  "\<exists>st' new. process_line (\<lambda>t s. True) st l = Inr st' \<and> story st' = story st @ new \<and>
     process_line accepts st l =
       (if \<forall>t s. Paragraph t s \<in> set new \<longrightarrow> accepts t s then Inr st' else Inl ValueError)"
proof -
  consider (blank) "strip l = []"
    | (skip) "startswith (strip l) (str ''# BOOK SUMMARY'')"
    | (h3) "startswith (strip l) (str ''###'')"
    | (h2) "startswith (strip l) (str ''##'')" "\<not> startswith (strip l) (str ''###'')"
    | (h1) "startswith (strip l) (str ''#'')" "\<not> startswith (strip l) (str ''##'')"
        "\<not> startswith (strip l) (str ''# BOOK SUMMARY'')"
    | (bullet) "startswith (strip l) (str ''*'') \<or> startswith (strip l) (str ''-'')"
    | (quote) "startswith (strip l) (str ''>'')"
    | (plain) "strip l \<noteq> []" "\<not> startswith (strip l) (str ''#'')"
        "\<not> startswith (strip l) (str ''*'')" "\<not> startswith (strip l) (str ''-'')"
        "\<not> startswith (strip l) (str ''>'')"
    by blast
  then show ?thesis
  proof cases
    case blank
    show ?thesis
      unfolding blank_line[OF blank]
      by (cases "current_paragraph st = []") auto
  next
    case skip
    show ?thesis
      unfolding skip_line[OF skip] by auto
  next
    case h3
    show ?thesis
      unfolding heading3_line[OF h3] flush_then_emit_eq
      by (cases "current_paragraph st = []") auto
  next
    case h2
    show ?thesis
      unfolding heading2_line[OF h2] flush_then_emit_eq
      by (cases "current_paragraph st = []") auto
  next
    case h1
    show ?thesis
      unfolding heading1_line[OF h1] flush_then_emit_eq
      by (cases "current_paragraph st = []") auto
  next
    case bullet
    show ?thesis
      unfolding bullet_line[OF bullet] flush_then_emit_eq
      by (cases "current_paragraph st = []") auto
  next
    case quote
    show ?thesis
      unfolding quote_line[OF quote] flush_then_emit_eq
      by (cases "current_paragraph st = []") auto
  next
    case plain
    show ?thesis
      unfolding text_line[OF plain] by auto
  qed
qed

lemma run_lines_follows:
  "\<exists>st' new. run_lines (\<lambda>t s. True) st ls = Inr st' \<and> story st' = story st @ new \<and>
     run_lines accepts st ls =
       (if \<forall>t s. Paragraph t s \<in> set new \<longrightarrow> accepts t s then Inr st' else Inl ValueError)"
proof (induction ls arbitrary: st)
  case Nil
  then show ?case by simp
next
  case (Cons l ls)
  from process_line_follows[of st l accepts] obtain st1 new1 where
    a: "process_line (\<lambda>t s. True) st l = Inr st1" "story st1 = story st @ new1"
       "process_line accepts st l =
          (if \<forall>t s. Paragraph t s \<in> set new1 \<longrightarrow> accepts t s then Inr st1
           else Inl ValueError)"
    by blast
  from Cons[of st1] obtain st' new2 where
    b: "run_lines (\<lambda>t s. True) st1 ls = Inr st'" "story st' = story st1 @ new2"
       "run_lines accepts st1 ls =
          (if \<forall>t s. Paragraph t s \<in> set new2 \<longrightarrow> accepts t s then Inr st'
           else Inl ValueError)"
    by blast
  from a b have "run_lines (\<lambda>t s. True) st (l # ls) = Inr st' \<and>
     story st' = story st @ (new1 @ new2) \<and>
     run_lines accepts st (l # ls) =
       (if \<forall>t s. Paragraph t s \<in> set (new1 @ new2) \<longrightarrow> accepts t s then Inr st'
        else Inl ValueError)"
    by auto
  then show ?case by blast
qed

lemma process_content_follows:
  "\<exists>blocks. process_content (\<lambda>t s. True) today text = Inr blocks \<and>
     process_content accepts today text =
       (if \<forall>t s. Paragraph t s \<in> set blocks \<longrightarrow> accepts t s then Inr blocks
        else Inl ValueError)"
proof -
  let ?st0 = "\<lparr>story = [Paragraph (extract_title text) Title, Spacer 1 20,
                 Paragraph (str ''Generated on '' @ today) Body, Spacer 1 30],
               in_bullet_list = False, current_paragraph = []\<rparr>"
  have i0: "initial_state (\<lambda>t s. True) today text = Inr ?st0"
    by (simp add: initial_state_def build_paragraph_def)
  have i: "initial_state accepts today text =
      (if accepts (extract_title text) Title \<and> accepts (str ''Generated on '' @ today) Body
       then Inr ?st0 else Inl ValueError)"
    by (simp add: initial_state_def build_paragraph_def)
  from run_lines_follows[of ?st0 "split_lines text" accepts] obtain st1 new where
    r: "run_lines (\<lambda>t s. True) ?st0 (split_lines text) = Inr st1"
       "story st1 = story ?st0 @ new"
       "run_lines accepts ?st0 (split_lines text) =
          (if \<forall>t s. Paragraph t s \<in> set new \<longrightarrow> accepts t s then Inr st1
           else Inl ValueError)"
    by blast
  let ?last = "if current_paragraph st1 = [] then []
               else [Paragraph (join_space (current_paragraph st1)) Body]"
  have f0: "flush (\<lambda>t s. True) st1 =
      Inr (if current_paragraph st1 = [] then st1
           else st1\<lparr>story := story st1 @ ?last, current_paragraph := []\<rparr>)"
    by (simp add: flush_def build_paragraph_def)
  have f: "flush accepts st1 =
      (if current_paragraph st1 \<noteq> [] \<and>
          \<not> accepts (join_space (current_paragraph st1)) Body then Inl ValueError
       else Inr (if current_paragraph st1 = [] then st1
           else st1\<lparr>story := story st1 @ ?last, current_paragraph := []\<rparr>))"
    by (simp add: flush_def build_paragraph_def)
  let ?blocks = "story st1 @ ?last"
  from i0 r(1) f0 have p0: "process_content (\<lambda>t s. True) today text = Inr ?blocks"
    by (simp add: process_content_def scan_def)
  from i r f have "process_content accepts today text =
       (if \<forall>t s. Paragraph t s \<in> set ?blocks \<longrightarrow> accepts t s then Inr ?blocks
        else Inl ValueError)"
    by (auto simp add: process_content_def scan_def)
  with p0 show ?thesis by blast
qed

text \<open>A document of text lines only leaves all of them, transformed, in the buffer.\<close>

lemma run_lines_text_only:
  "(\<forall>l\<in>set ls. strip l \<noteq> [] \<and> \<not> startswith (strip l) (str ''#'') \<and>
      \<not> startswith (strip l) (str ''*'') \<and> \<not> startswith (strip l) (str ''-'') \<and>
      \<not> startswith (strip l) (str ''>'')) \<Longrightarrow>
   \<not> in_bullet_list st \<Longrightarrow>
   run_lines accepts st ls =
     Inr (st\<lparr>current_paragraph :=
               current_paragraph st @ map (\<lambda>l. process_bold_text (strip l)) ls\<rparr>)"
proof (induction ls arbitrary: st)
  case Nil
  then show ?case by simp
next
  case (Cons l ls)
  from Cons.prems have
    "process_line accepts st l =
       Inr (st\<lparr>current_paragraph := current_paragraph st @ [process_bold_text (strip l)]\<rparr>)"
    by (simp add: text_line)
  moreover from Cons.prems have "run_lines accepts
      (st\<lparr>current_paragraph := current_paragraph st @ [process_bold_text (strip l)]\<rparr>) ls =
     Inr (st\<lparr>current_paragraph := current_paragraph st @ [process_bold_text (strip l)]\<rparr>
            \<lparr>current_paragraph :=
               current_paragraph
                 (st\<lparr>current_paragraph :=
                       current_paragraph st @ [process_bold_text (strip l)]\<rparr>) @
               map (\<lambda>l. process_bold_text (strip l)) ls\<rparr>)"
    by (intro Cons.IH) simp_all
  ultimately show ?case by simp
qed

section \<open>The claims about the line loop\<close>

text \<open>
  At the concrete inputs below the constructor is a sample of the parameter: one that
  rejects a single text, in most places the unclosed tag \<open><b>\<close>, and accepts every
  other text.
\<close>

text \<open>
  C1, as the claim states it, fails: the spacer of a blank line is appended inside the
  test of the paragraph buffer, so a blank line met while the buffer is empty emits
  nothing. The document of one newline has two blank lines and no spacer after the
  preamble.
\<close>

theorem blank_line_without_spacer:
  "process_content (\<lambda>t s. t \<noteq> str ''<b>'') (str ''D'') [10] =
     Inr [Paragraph (str ''eBook Summary'') Title, Spacer 1 20,
      Paragraph (str ''Generated on D'') Body, Spacer 1 30]"
  by (simp add: eval_defs)

text \<open>
  C1, amended. For every line that is blank after trimming: where the paragraph buffer
  is empty the parser emits nothing and clears the \<open>in_bullet_list\<close> flag; where it is
  not empty and the constructor accepts the space-joined buffer, the parser emits it as
  a Paragraph block, then a Spacer, and clears the buffer and the flag; where the
  constructor rejects the joined buffer, the line raises its error.
\<close>

theorem blank_line_rule:
  assumes "strip raw = []"
  shows "process_line accepts st raw =
     (if current_paragraph st = [] then Inr (st\<lparr>in_bullet_list := False\<rparr>)
      else if accepts (join_space (current_paragraph st)) Body then
        Inr (st\<lparr>story := story st @
                       [Paragraph (join_space (current_paragraph st)) Body, Spacer 1 6],
               in_bullet_list := False, current_paragraph := []\<rparr>)
      else Inl ValueError)"
  using assms by (rule blank_line)

text \<open>
  The rule on a line of two spaces, with the fragments \<open>A\<close>, \<open>B\<close> pending, with
  nothing pending, and with the rejected fragment pending.
\<close>

theorem blank_line_rule_witness:
  "strip (str ''  '') = [] \<and>
   process_line (\<lambda>t s. t \<noteq> str ''<b>'')
       \<lparr>story = [], in_bullet_list = True, current_paragraph = [str ''A'', str ''B'']\<rparr>
       (str ''  '') =
     Inr \<lparr>story = [Paragraph (str ''A B'') Body, Spacer 1 6], in_bullet_list = False,
          current_paragraph = []\<rparr> \<and>
   process_line (\<lambda>t s. t \<noteq> str ''<b>'')
       \<lparr>story = [], in_bullet_list = True, current_paragraph = []\<rparr> (str ''  '') =
     Inr \<lparr>story = [], in_bullet_list = False, current_paragraph = []\<rparr> \<and>
   process_line (\<lambda>t s. t \<noteq> str ''<b>'')
       \<lparr>story = [], in_bullet_list = True, current_paragraph = [str ''<b>'']\<rparr>
       (str ''  '') = Inl ValueError"
proof -
  have h: "strip (str ''  '') = []" by (simp add: eval_defs)
  from blank_line_rule [OF h, of "\<lambda>t s. t \<noteq> str ''<b>''"
      "\<lparr>story = [], in_bullet_list = True, current_paragraph = [str ''A'', str ''B'']\<rparr>"]
    blank_line_rule [OF h, of "\<lambda>t s. t \<noteq> str ''<b>''"
      "\<lparr>story = [], in_bullet_list = True, current_paragraph = []\<rparr>"]
    blank_line_rule [OF h, of "\<lambda>t s. t \<noteq> str ''<b>''"
      "\<lparr>story = [], in_bullet_list = True, current_paragraph = [str ''<b>'']\<rparr>"]
    h
  show ?thesis by (simp add: str_def)
qed

text \<open>
  C4, as the claim states it, fails: the test of the source is a prefix test, so the
  line \<open># BOOK SUMMARY: Title\<close> is skipped too and emits no heading.
\<close>

theorem title_line_emits_no_heading:
  "process_content (\<lambda>t s. t \<noteq> str ''<b>'') (str ''D'') (str ''# BOOK SUMMARY: Title'') =
     Inr [Paragraph (str ''Title'') Title, Spacer 1 20,
      Paragraph (str ''Generated on D'') Body, Spacer 1 30]"
  by (simp add: eval_defs)

text \<open>
  C4, amended. During block emission every trimmed line that starts with
  \<open># BOOK SUMMARY\<close> is skipped entirely: no block, no paragraph flush, no change of
  the state, no error. Every other line that starts with \<open>#\<close> is a heading line: where
  the constructor accepts the pending paragraph, if there is one, and the heading text,
  the pending paragraph is flushed and one heading block is emitted; where it rejects
  one of them the line raises its error.
\<close>

theorem title_line_skipped:
  "(startswith (strip raw) (str ''# BOOK SUMMARY'') \<longrightarrow> process_line accepts st raw = Inr st) \<and>
   (startswith (strip raw) (str ''#'') \<and> \<not> startswith (strip raw) (str ''# BOOK SUMMARY'') \<longrightarrow>
      (\<exists>t h. (h = Heading1 \<or> h = Heading2 \<or> h = Heading3) \<and>
         process_line accepts st raw =
           (if current_paragraph st \<noteq> [] \<and>
               \<not> accepts (join_space (current_paragraph st)) Body then Inl ValueError
            else if \<not> accepts t h then Inl ValueError
            else Inr \<lparr>story = story st @
                        (if current_paragraph st = [] then []
                         else [Paragraph (join_space (current_paragraph st)) Body]) @
                        [Paragraph t h],
                      in_bullet_list = False, current_paragraph = []\<rparr>)))"
proof (intro conjI impI)
  assume "startswith (strip raw) (str ''# BOOK SUMMARY'')"
  then show "process_line accepts st raw = Inr st" by (rule skip_line)
next
  assume a: "startswith (strip raw) (str ''#'') \<and>
    \<not> startswith (strip raw) (str ''# BOOK SUMMARY'')"
  have "\<exists>t h. (h = Heading1 \<or> h = Heading2 \<or> h = Heading3) \<and>
         process_line accepts st raw = flush_then_emit accepts t h False st"
  proof (cases "startswith (strip raw) (str ''###'')")
    case True
    from heading3_line[OF True] show ?thesis by blast
  next
    case n3: False
    show ?thesis
    proof (cases "startswith (strip raw) (str ''##'')")
      case True
      from heading2_line[OF True n3] show ?thesis by blast
    next
      case False
      with a heading1_line[of raw accepts st] show ?thesis by blast
    qed
  qed
  then show "\<exists>t h. (h = Heading1 \<or> h = Heading2 \<or> h = Heading3) \<and>
         process_line accepts st raw =
           (if current_paragraph st \<noteq> [] \<and>
               \<not> accepts (join_space (current_paragraph st)) Body then Inl ValueError
            else if \<not> accepts t h then Inl ValueError
            else Inr \<lparr>story = story st @
                        (if current_paragraph st = [] then []
                         else [Paragraph (join_space (current_paragraph st)) Body]) @
                        [Paragraph t h],
                      in_bullet_list = False, current_paragraph = []\<rparr>)"
    by (simp only: flush_then_emit_eq)
qed

text \<open>
  The rule on the lines \<open># BOOK SUMMARY: Title\<close> and \<open># Intro\<close>, with the
  fragment \<open>A\<close> pending.
\<close>

theorem title_line_skipped_witness:
  "startswith (strip (str ''# BOOK SUMMARY: Title'')) (str ''# BOOK SUMMARY'') \<and>
   process_line (\<lambda>t s. t \<noteq> str ''<b>'')
       \<lparr>story = [], in_bullet_list = True, current_paragraph = [str ''A'']\<rparr>
       (str ''# BOOK SUMMARY: Title'') =
     Inr \<lparr>story = [], in_bullet_list = True, current_paragraph = [str ''A'']\<rparr> \<and>
   startswith (strip (str ''# Intro'')) (str ''#'') \<and>
   \<not> startswith (strip (str ''# Intro'')) (str ''# BOOK SUMMARY'') \<and>
   process_line (\<lambda>t s. t \<noteq> str ''<b>'')
       \<lparr>story = [], in_bullet_list = True, current_paragraph = [str ''A'']\<rparr>
       (str ''# Intro'') =
     Inr \<lparr>story = [Paragraph (str ''A'') Body, Paragraph (str ''Intro'') Heading1],
          in_bullet_list = False, current_paragraph = []\<rparr>"
proof -
  let ?st = "\<lparr>story = [], in_bullet_list = True, current_paragraph = [str ''A'']\<rparr>"
  have a: "startswith (strip (str ''# BOOK SUMMARY: Title'')) (str ''# BOOK SUMMARY'')"
    by (simp add: eval_defs)
  have b: "startswith (strip (str ''# Intro'')) (str ''#'') \<and>
    \<not> startswith (strip (str ''# Intro'')) (str ''# BOOK SUMMARY'')"
    by (simp add: eval_defs)
  from title_line_skipped [of "str ''# BOOK SUMMARY: Title''" "\<lambda>t s. t \<noteq> str ''<b>''" ?st] a
  have c: "process_line (\<lambda>t s. t \<noteq> str ''<b>'') ?st (str ''# BOOK SUMMARY: Title'') = Inr ?st" by blast
  from title_line_skipped [of "str ''# Intro''" "\<lambda>t s. t \<noteq> str ''<b>''" ?st] b
  obtain t h where d: "process_line (\<lambda>t s. t \<noteq> str ''<b>'') ?st (str ''# Intro'') =
           (if current_paragraph ?st \<noteq> [] \<and>
               \<not> (\<lambda>t s. t \<noteq> str ''<b>'') (join_space (current_paragraph ?st)) Body then Inl ValueError
            else if \<not> (\<lambda>t s. t \<noteq> str ''<b>'') t h then Inl ValueError
            else Inr \<lparr>story = story ?st @
                        (if current_paragraph ?st = [] then []
                         else [Paragraph (join_space (current_paragraph ?st)) Body]) @
                        [Paragraph t h],
                      in_bullet_list = False, current_paragraph = []\<rparr>)"
    by blast
  have e: "process_line (\<lambda>t s. t \<noteq> str ''<b>'') ?st (str ''# Intro'') =
     Inr \<lparr>story = [Paragraph (str ''A'') Body, Paragraph (str ''Intro'') Heading1],
          in_bullet_list = False, current_paragraph = []\<rparr>"
    by (simp add: eval_defs)
  from a b c e show ?thesis by blast
qed

text \<open>
  C5, as the claim states it, fails: the title block is built by the constructor before
  anything else, and a title the constructor rejects makes the whole call raise, so that
  no block is emitted. The heading \<open># Tips <b>\<close> gives such a title.
\<close>

theorem rejected_title_no_preamble:
  "extract_title (str ''# Tips <b>'') = str ''Tips <b>'' \<and>
   process_content (\<lambda>t s. t \<noteq> str ''Tips <b>'') (str ''D'') (str ''# Tips <b>'') =
     Inl ValueError"
  by (simp add: eval_defs)

text \<open>
  C5, amended. For every document for which processing returns a block sequence, the
  sequence starts with the title block of the extracted title, a spacer, the date line
  and a spacer, and no block after them has the title style. Processing raises the
  constructor's error, before any line is read, where the constructor rejects the
  extracted title or the date line. The empty document yields these four blocks and no
  others, with the fallback title, where the constructor accepts the fallback title and
  the date line, and raises otherwise.
\<close>

theorem preamble_first:
  "(process_content accepts today text = Inr blocks \<longrightarrow>
      (\<exists>rest. blocks =
         Paragraph (extract_title text) Title # Spacer 1 20 #
         Paragraph (str ''Generated on '' @ today) Body # Spacer 1 30 # rest \<and>
         (\<forall>t. Paragraph t Title \<notin> set rest))) \<and>
   (\<not> accepts (extract_title text) Title \<or>
    \<not> accepts (str ''Generated on '' @ today) Body \<longrightarrow>
      process_content accepts today text = Inl ValueError) \<and>
   process_content accepts today [] =
     (if accepts (str ''eBook Summary'') Title \<and> accepts (str ''Generated on '' @ today) Body
      then Inr [Paragraph (str ''eBook Summary'') Title, Spacer 1 20,
                Paragraph (str ''Generated on '' @ today) Body, Spacer 1 30]
      else Inl ValueError)"
proof (intro conjI impI)
  assume r: "process_content accepts today text = Inr blocks"
  then obtain st where st: "scan accepts today text = Inr st"
    by (auto simp add: process_content_def split: sum.splits)
  with r obtain st' where st': "flush accepts st = Inr st'" "blocks = story st'"
    by (auto simp add: process_content_def split: sum.splits)
  from st obtain st0 where st0: "initial_state accepts today text = Inr st0"
    "run_lines accepts st0 (split_lines text) = Inr st"
    by (auto simp add: scan_def split: sum.splits)
  from st0(1) have s0: "story st0 =
      [Paragraph (extract_title text) Title, Spacer 1 20,
       Paragraph (str ''Generated on '' @ today) Body, Spacer 1 30]"
    by (auto simp add: initial_state_def build_paragraph_def split: if_splits)
  from run_lines_appends[OF st0(2)] obtain ys where
    ys: "story st = story st0 @ ys" "\<forall>t. Paragraph t Title \<notin> set ys" by blast
  from flush_appends[OF st'(1)] obtain zs where
    zs: "story st' = story st @ zs" "\<forall>t. Paragraph t Title \<notin> set zs" by blast
  from s0 ys zs st'(2) have "blocks =
         Paragraph (extract_title text) Title # Spacer 1 20 #
         Paragraph (str ''Generated on '' @ today) Body # Spacer 1 30 # (ys @ zs) \<and>
         (\<forall>t. Paragraph t Title \<notin> set (ys @ zs))"
    by simp
  then show "\<exists>rest. blocks =
         Paragraph (extract_title text) Title # Spacer 1 20 #
         Paragraph (str ''Generated on '' @ today) Body # Spacer 1 30 # rest \<and>
         (\<forall>t. Paragraph t Title \<notin> set rest)"
    by blast
next
  assume "\<not> accepts (extract_title text) Title \<or>
    \<not> accepts (str ''Generated on '' @ today) Body"
  then show "process_content accepts today text = Inl ValueError"
    by (auto simp add: process_content_def scan_def initial_state_def build_paragraph_def)
next
  have "extract_title [] = str ''eBook Summary''"
    by (simp add: extract_title_def title_of_line_def strip_def str_def)
  then show "process_content accepts today [] =
     (if accepts (str ''eBook Summary'') Title \<and> accepts (str ''Generated on '' @ today) Body
      then Inr [Paragraph (str ''eBook Summary'') Title, Spacer 1 20,
                Paragraph (str ''Generated on '' @ today) Body, Spacer 1 30]
      else Inl ValueError)"
    by (simp add: process_content_def scan_def initial_state_def build_paragraph_def
        process_line_def flush_def strip_def)
qed

text \<open>
  The rule on the document \<open># Intro\<close>, \<open>body\<close>, which returns, and on the document
  \<open># <b>\<close>, whose title is rejected.
\<close>

theorem preamble_first_witness:
  "process_content (\<lambda>t s. t \<noteq> str ''<b>'') (str ''D'') (str ''# Intro'' @ 10 # str ''body'') =
     Inr [Paragraph (str ''Intro'') Title, Spacer 1 20,
      Paragraph (str ''Generated on D'') Body, Spacer 1 30,
      Paragraph (str ''Intro'') Heading1, Paragraph (str ''body'') Body] \<and>
   extract_title (str ''# Intro'' @ 10 # str ''body'') = str ''Intro'' \<and>
   extract_title (str ''# <b>'') = str ''<b>'' \<and>
   process_content (\<lambda>t s. t \<noteq> str ''<b>'') (str ''D'') (str ''# <b>'') = Inl ValueError"
proof -
  let ?doc = "str ''# Intro'' @ 10 # str ''body''"
  let ?blocks = "[Paragraph (str ''Intro'') Title, Spacer 1 20,
      Paragraph (str ''Generated on D'') Body, Spacer 1 30,
      Paragraph (str ''Intro'') Heading1, Paragraph (str ''body'') Body]"
  have r: "process_content (\<lambda>t s. t \<noteq> str ''<b>'') (str ''D'') ?doc = Inr ?blocks"
    by (simp add: eval_defs)
  have t1: "extract_title ?doc = str ''Intro''" by (simp add: eval_defs)
  have t2: "extract_title (str ''# <b>'') = str ''<b>''" by (simp add: eval_defs)
  from preamble_first [of "\<lambda>t s. t \<noteq> str ''<b>''" "str ''D''" ?doc ?blocks] r
  have "\<exists>rest. ?blocks =
         Paragraph (extract_title ?doc) Title # Spacer 1 20 #
         Paragraph (str ''Generated on '' @ str ''D'') Body # Spacer 1 30 # rest \<and>
         (\<forall>t. Paragraph t Title \<notin> set rest)"
    by blast
  from t2 have "\<not> (\<lambda>t s. t \<noteq> str ''<b>'') (extract_title (str ''# <b>'')) Title" by simp
  with preamble_first [of "\<lambda>t s. t \<noteq> str ''<b>''" "str ''D''" "str ''# <b>''" "[]"]
  have e: "process_content (\<lambda>t s. t \<noteq> str ''<b>'') (str ''D'') (str ''# <b>'') = Inl ValueError"
    by blast
  from r t1 t2 e show ?thesis by blast
qed

text \<open>
  C6, as the claim states it, fails. A quote line whose block text the constructor
  rejects raises and emits no block. And a remainder that is one double quote alone,
  which is no pair, loses that quote: the block text is the empty pair, two quotes and
  not three.
\<close>

theorem quote_line_rejected_or_lone:
  "process_line (\<lambda>t s. t \<noteq> str ''<b>'') \<lparr>story = [], in_bullet_list = False, current_paragraph = []\<rparr>
       (str ''> '' @ [34]) =
     Inr \<lparr>story = [Paragraph [34, 34] Quote], in_bullet_list = False,
          current_paragraph = []\<rparr> \<and>
   process_content (\<lambda>t s. t \<noteq> 34 # str ''<b>'' @ [34]) (str ''D'') (str ''> <b>'') =
     Inl ValueError"
  by (simp add: eval_defs)

text \<open>
  C6, amended. For every trimmed line that starts with \<open>>\<close>, with the remainder after
  the marker trimmed: where the remainder is wrapped in a pair of straight double quotes
  (code point 34, so it has two characters at least) the block text is the remainder as
  it stands, the pair stripped and put back, not doubled; where the remainder does not
  both start and end with a double quote the block text is the remainder wrapped in a
  pair. In both cases, where the constructor accepts the pending paragraph, if there is
  one, and the block text, the pending paragraph is flushed, one Quote block is emitted
  and the flag is cleared; where it rejects one of them the line raises its error. The
  remainder of one double quote alone is left out of the rule.
\<close>

theorem quote_rule:
  assumes "startswith (strip raw) (str ''>'')"
  shows "(\<forall>inner. strip (drop 1 (strip raw)) = 34 # inner @ [34] \<longrightarrow>
            process_line accepts st raw =
              (if current_paragraph st \<noteq> [] \<and>
                  \<not> accepts (join_space (current_paragraph st)) Body then Inl ValueError
               else if \<not> accepts (34 # inner @ [34]) Quote then Inl ValueError
               else Inr \<lparr>story = story st @
                           (if current_paragraph st = [] then []
                            else [Paragraph (join_space (current_paragraph st)) Body]) @
                           [Paragraph (34 # inner @ [34]) Quote],
                         in_bullet_list = False, current_paragraph = []\<rparr>)) \<and>
         (\<not> (startswith (strip (drop 1 (strip raw))) [34] \<and> endswith (strip (drop 1 (strip raw))) [34]) \<longrightarrow>
            process_line accepts st raw =
              (if current_paragraph st \<noteq> [] \<and>
                  \<not> accepts (join_space (current_paragraph st)) Body then Inl ValueError
               else if \<not> accepts (34 # strip (drop 1 (strip raw)) @ [34]) Quote then Inl ValueError
               else Inr \<lparr>story = story st @
                           (if current_paragraph st = [] then []
                            else [Paragraph (join_space (current_paragraph st)) Body]) @
                           [Paragraph (34 # strip (drop 1 (strip raw)) @ [34]) Quote],
                         in_bullet_list = False, current_paragraph = []\<rparr>))"
proof (intro conjI allI impI)
  fix inner
  assume q: "strip (drop 1 (strip raw)) = 34 # inner @ [34]"
  then have "startswith (strip (drop 1 (strip raw))) [34] \<and> endswith (strip (drop 1 (strip raw))) [34]"
    by (simp add: endswith_def)
  moreover from q have "butlast (drop 1 (strip (drop 1 (strip raw)))) = inner" by simp
  ultimately show "process_line accepts st raw =
              (if current_paragraph st \<noteq> [] \<and>
                  \<not> accepts (join_space (current_paragraph st)) Body then Inl ValueError
               else if \<not> accepts (34 # inner @ [34]) Quote then Inl ValueError
               else Inr \<lparr>story = story st @
                           (if current_paragraph st = [] then []
                            else [Paragraph (join_space (current_paragraph st)) Body]) @
                           [Paragraph (34 # inner @ [34]) Quote],
                         in_bullet_list = False, current_paragraph = []\<rparr>)"
    using quote_line[OF assms, of accepts st] by (simp add: flush_then_emit_eq)
next
  assume "\<not> (startswith (strip (drop 1 (strip raw))) [34] \<and> endswith (strip (drop 1 (strip raw))) [34])"
  then have e: "(if startswith (strip (drop 1 (strip raw))) [34] \<and> endswith (strip (drop 1 (strip raw))) [34]
                 then butlast (drop 1 (strip (drop 1 (strip raw)))) else strip (drop 1 (strip raw))) = strip (drop 1 (strip raw))"
    by (rule if_not_P)
  show "process_line accepts st raw =
              (if current_paragraph st \<noteq> [] \<and>
                  \<not> accepts (join_space (current_paragraph st)) Body then Inl ValueError
               else if \<not> accepts (34 # strip (drop 1 (strip raw)) @ [34]) Quote then Inl ValueError
               else Inr \<lparr>story = story st @
                           (if current_paragraph st = [] then []
                            else [Paragraph (join_space (current_paragraph st)) Body]) @
                           [Paragraph (34 # strip (drop 1 (strip raw)) @ [34]) Quote],
                         in_bullet_list = False, current_paragraph = []\<rparr>)"
    by (simp only: quote_line[OF assms] e flush_then_emit_eq)
qed

text \<open>
  The rule on the line \<open>> "Already quoted."\<close> and on the line \<open>> plain\<close>, with the
  fragment \<open>A\<close> pending.
\<close>

theorem quote_rule_witness:
  "startswith (strip (str ''> '' @ 34 # str ''Already quoted.'' @ [34])) (str ''>'') \<and>
   strip (drop 1 (strip (str ''> '' @ 34 # str ''Already quoted.'' @ [34]))) =
     34 # str ''Already quoted.'' @ [34] \<and>
   process_line (\<lambda>t s. t \<noteq> str ''<b>'')
       \<lparr>story = [], in_bullet_list = True, current_paragraph = [str ''A'']\<rparr>
       (str ''> '' @ 34 # str ''Already quoted.'' @ [34]) =
     Inr \<lparr>story = [Paragraph (str ''A'') Body,
                   Paragraph (34 # str ''Already quoted.'' @ [34]) Quote],
          in_bullet_list = False, current_paragraph = []\<rparr> \<and>
   startswith (strip (str ''> plain'')) (str ''>'') \<and>
   \<not> startswith (strip (drop 1 (strip (str ''> plain'')))) [34] \<and>
   process_line (\<lambda>t s. t \<noteq> str ''<b>'')
       \<lparr>story = [], in_bullet_list = True, current_paragraph = [str ''A'']\<rparr>
       (str ''> plain'') =
     Inr \<lparr>story = [Paragraph (str ''A'') Body, Paragraph (34 # str ''plain'' @ [34]) Quote],
          in_bullet_list = False, current_paragraph = []\<rparr>"
proof -
  let ?st = "\<lparr>story = [], in_bullet_list = True, current_paragraph = [str ''A'']\<rparr>"
  let ?l = "str ''> '' @ 34 # str ''Already quoted.'' @ [34]"
  have a: "startswith (strip ?l) (str ''>'')" by (simp add: eval_defs)
  have b: "strip (drop 1 (strip ?l)) = 34 # str ''Already quoted.'' @ [34]"
    by (simp add: eval_defs)
  from quote_rule [OF a, of "\<lambda>t s. t \<noteq> str ''<b>''" ?st] b
  have "process_line (\<lambda>t s. t \<noteq> str ''<b>'') ?st ?l =
      (if current_paragraph ?st \<noteq> [] \<and>
          \<not> (\<lambda>t s. t \<noteq> str ''<b>'') (join_space (current_paragraph ?st)) Body then Inl ValueError
       else if \<not> (\<lambda>t s. t \<noteq> str ''<b>'') (34 # str ''Already quoted.'' @ [34]) Quote then Inl ValueError
       else Inr \<lparr>story = story ?st @
                   (if current_paragraph ?st = [] then []
                    else [Paragraph (join_space (current_paragraph ?st)) Body]) @
                   [Paragraph (34 # str ''Already quoted.'' @ [34]) Quote],
                 in_bullet_list = False, current_paragraph = []\<rparr>)"
    by blast
  then have c: "process_line (\<lambda>t s. t \<noteq> str ''<b>'') ?st ?l =
     Inr \<lparr>story = [Paragraph (str ''A'') Body,
                   Paragraph (34 # str ''Already quoted.'' @ [34]) Quote],
          in_bullet_list = False, current_paragraph = []\<rparr>"
    by (simp add: str_def)
  have a': "startswith (strip (str ''> plain'')) (str ''>'')" by (simp add: eval_defs)
  have b': "\<not> startswith (strip (drop 1 (strip (str ''> plain'')))) [34]"
    by (simp add: eval_defs)
  have q': "strip (drop 1 (strip (str ''> plain''))) = str ''plain''" by (simp add: eval_defs)
  from quote_rule [OF a', of "\<lambda>t s. t \<noteq> str ''<b>''" ?st] b'
  have "process_line (\<lambda>t s. t \<noteq> str ''<b>'') ?st (str ''> plain'') =
      (if current_paragraph ?st \<noteq> [] \<and>
          \<not> (\<lambda>t s. t \<noteq> str ''<b>'') (join_space (current_paragraph ?st)) Body then Inl ValueError
       else if \<not> (\<lambda>t s. t \<noteq> str ''<b>'') (34 # strip (drop 1 (strip (str ''> plain''))) @ [34]) Quote then Inl ValueError
       else Inr \<lparr>story = story ?st @
                   (if current_paragraph ?st = [] then []
                    else [Paragraph (join_space (current_paragraph ?st)) Body]) @
                   [Paragraph (34 # strip (drop 1 (strip (str ''> plain''))) @ [34]) Quote],
                 in_bullet_list = False, current_paragraph = []\<rparr>)"
    by blast
  with q' have c': "process_line (\<lambda>t s. t \<noteq> str ''<b>'') ?st (str ''> plain'') =
     Inr \<lparr>story = [Paragraph (str ''A'') Body, Paragraph (34 # str ''plain'' @ [34]) Quote],
          in_bullet_list = False, current_paragraph = []\<rparr>"
    by (simp add: str_def)
  from a b c a' b' c' show ?thesis by blast
qed

text \<open>
  C7, as the claim states it, fails for the level-one headings: a line that starts with
  \<open>#\<close> and not with \<open>##\<close> emits no Heading1 block where it starts with
  \<open># BOOK SUMMARY\<close>, since such a line is skipped before the heading tests.
\<close>

theorem summary_heading_not_emitted:
  "startswith (strip (str ''# BOOK SUMMARY: Clean Code'')) (str ''#'') \<and>
   \<not> startswith (strip (str ''# BOOK SUMMARY: Clean Code'')) (str ''##'') \<and>
   process_line (\<lambda>t s. t \<noteq> str ''<b>'') \<lparr>story = [], in_bullet_list = False, current_paragraph = []\<rparr>
       (str ''# BOOK SUMMARY: Clean Code'') =
     Inr \<lparr>story = [], in_bullet_list = False, current_paragraph = []\<rparr>"
  by (simp add: eval_defs)

text \<open>
  C7, amended. A trimmed line that starts with \<open># BOOK SUMMARY\<close> is skipped before
  the heading tests and changes nothing. The heading tests then go from \<open>###\<close> to
  \<open>##\<close> to \<open>#\<close>: a trimmed line that starts with \<open>###\<close> is a Heading3 line, one
  that starts with \<open>##\<close> and not \<open>###\<close> a Heading2 line, one that starts with
  \<open>#\<close>, not with \<open>##\<close> and not with \<open># BOOK SUMMARY\<close> a Heading1 line. The
  text of the heading is the remainder after the marker, trimmed. Where the constructor
  accepts the pending paragraph, if there is one, and the heading text, the pending
  paragraph is flushed, the heading block of that level is emitted and the flag is
  cleared; where it rejects one of them the line raises its error.
\<close>

theorem heading_levels:
  "(startswith (strip raw) (str ''# BOOK SUMMARY'') \<longrightarrow> process_line accepts st raw = Inr st) \<and>
   (startswith (strip raw) (str ''###'') \<longrightarrow>
      process_line accepts st raw =
        (if current_paragraph st \<noteq> [] \<and>
            \<not> accepts (join_space (current_paragraph st)) Body then Inl ValueError
         else if \<not> accepts (strip (drop 3 (strip raw))) Heading3 then Inl ValueError
         else Inr \<lparr>story = story st @
                     (if current_paragraph st = [] then []
                      else [Paragraph (join_space (current_paragraph st)) Body]) @
                     [Paragraph (strip (drop 3 (strip raw))) Heading3],
                   in_bullet_list = False, current_paragraph = []\<rparr>)) \<and>
   (startswith (strip raw) (str ''##'') \<and> \<not> startswith (strip raw) (str ''###'') \<longrightarrow>
      process_line accepts st raw =
        (if current_paragraph st \<noteq> [] \<and>
            \<not> accepts (join_space (current_paragraph st)) Body then Inl ValueError
         else if \<not> accepts (strip (drop 2 (strip raw))) Heading2 then Inl ValueError
         else Inr \<lparr>story = story st @
                     (if current_paragraph st = [] then []
                      else [Paragraph (join_space (current_paragraph st)) Body]) @
                     [Paragraph (strip (drop 2 (strip raw))) Heading2],
                   in_bullet_list = False, current_paragraph = []\<rparr>)) \<and>
   (startswith (strip raw) (str ''#'') \<and> \<not> startswith (strip raw) (str ''##'') \<and>
    \<not> startswith (strip raw) (str ''# BOOK SUMMARY'') \<longrightarrow>
      process_line accepts st raw =
        (if current_paragraph st \<noteq> [] \<and>
            \<not> accepts (join_space (current_paragraph st)) Body then Inl ValueError
         else if \<not> accepts (strip (drop 1 (strip raw))) Heading1 then Inl ValueError
         else Inr \<lparr>story = story st @
                     (if current_paragraph st = [] then []
                      else [Paragraph (join_space (current_paragraph st)) Body]) @
                     [Paragraph (strip (drop 1 (strip raw))) Heading1],
                   in_bullet_list = False, current_paragraph = []\<rparr>))"
proof (intro conjI impI)
  assume "startswith (strip raw) (str ''# BOOK SUMMARY'')"
  then show "process_line accepts st raw = Inr st" by (rule skip_line)
next
  assume a: "startswith (strip raw) (str ''###'')"
  show "process_line accepts st raw =
        (if current_paragraph st \<noteq> [] \<and>
            \<not> accepts (join_space (current_paragraph st)) Body then Inl ValueError
         else if \<not> accepts (strip (drop 3 (strip raw))) Heading3 then Inl ValueError
         else Inr \<lparr>story = story st @
                     (if current_paragraph st = [] then []
                      else [Paragraph (join_space (current_paragraph st)) Body]) @
                     [Paragraph (strip (drop 3 (strip raw))) Heading3],
                   in_bullet_list = False, current_paragraph = []\<rparr>)"
    by (simp only: heading3_line[OF a] flush_then_emit_eq)
next
  assume a: "startswith (strip raw) (str ''##'') \<and> \<not> startswith (strip raw) (str ''###'')"
  then have "process_line accepts st raw =
      flush_then_emit accepts (strip (drop 2 (strip raw))) Heading2 False st"
    by (simp add: heading2_line)
  then show "process_line accepts st raw =
        (if current_paragraph st \<noteq> [] \<and>
            \<not> accepts (join_space (current_paragraph st)) Body then Inl ValueError
         else if \<not> accepts (strip (drop 2 (strip raw))) Heading2 then Inl ValueError
         else Inr \<lparr>story = story st @
                     (if current_paragraph st = [] then []
                      else [Paragraph (join_space (current_paragraph st)) Body]) @
                     [Paragraph (strip (drop 2 (strip raw))) Heading2],
                   in_bullet_list = False, current_paragraph = []\<rparr>)"
    by (simp only: flush_then_emit_eq)
next
  assume a: "startswith (strip raw) (str ''#'') \<and> \<not> startswith (strip raw) (str ''##'') \<and>
    \<not> startswith (strip raw) (str ''# BOOK SUMMARY'')"
  then have "process_line accepts st raw =
      flush_then_emit accepts (strip (drop 1 (strip raw))) Heading1 False st"
    by (simp add: heading1_line)
  then show "process_line accepts st raw =
        (if current_paragraph st \<noteq> [] \<and>
            \<not> accepts (join_space (current_paragraph st)) Body then Inl ValueError
         else if \<not> accepts (strip (drop 1 (strip raw))) Heading1 then Inl ValueError
         else Inr \<lparr>story = story st @
                     (if current_paragraph st = [] then []
                      else [Paragraph (join_space (current_paragraph st)) Body]) @
                     [Paragraph (strip (drop 1 (strip raw))) Heading1],
                   in_bullet_list = False, current_paragraph = []\<rparr>)"
    by (simp only: flush_then_emit_eq)
qed

text \<open>
  The rule on \<open>### X\<close>, \<open>## X\<close> and \<open># X\<close> with nothing pending, on
  \<open># BOOK SUMMARY\<close>, and on \<open>## <b>\<close>, whose heading text is rejected.
\<close>

theorem heading_levels_witness:
  "startswith (strip (str ''### X'')) (str ''###'') \<and>
   process_line (\<lambda>t s. t \<noteq> str ''<b>'') \<lparr>story = [], in_bullet_list = True, current_paragraph = []\<rparr>
       (str ''### X'') =
     Inr \<lparr>story = [Paragraph (str ''X'') Heading3], in_bullet_list = False,
          current_paragraph = []\<rparr> \<and>
   startswith (strip (str ''## X'')) (str ''##'') \<and>
   \<not> startswith (strip (str ''## X'')) (str ''###'') \<and>
   process_line (\<lambda>t s. t \<noteq> str ''<b>'') \<lparr>story = [], in_bullet_list = True, current_paragraph = []\<rparr>
       (str ''## X'') =
     Inr \<lparr>story = [Paragraph (str ''X'') Heading2], in_bullet_list = False,
          current_paragraph = []\<rparr> \<and>
   startswith (strip (str ''# X'')) (str ''#'') \<and>
   \<not> startswith (strip (str ''# X'')) (str ''##'') \<and>
   \<not> startswith (strip (str ''# X'')) (str ''# BOOK SUMMARY'') \<and>
   process_line (\<lambda>t s. t \<noteq> str ''<b>'') \<lparr>story = [], in_bullet_list = True, current_paragraph = []\<rparr>
       (str ''# X'') =
     Inr \<lparr>story = [Paragraph (str ''X'') Heading1], in_bullet_list = False,
          current_paragraph = []\<rparr> \<and>
   startswith (strip (str ''# BOOK SUMMARY'')) (str ''# BOOK SUMMARY'') \<and>
   process_line (\<lambda>t s. t \<noteq> str ''<b>'') \<lparr>story = [], in_bullet_list = True, current_paragraph = []\<rparr>
       (str ''# BOOK SUMMARY'') =
     Inr \<lparr>story = [], in_bullet_list = True, current_paragraph = []\<rparr> \<and>
   startswith (strip (str ''## <b>'')) (str ''##'') \<and>
   \<not> startswith (strip (str ''## <b>'')) (str ''###'') \<and>
   process_line (\<lambda>t s. t \<noteq> str ''<b>'') \<lparr>story = [], in_bullet_list = True, current_paragraph = []\<rparr>
       (str ''## <b>'') = Inl ValueError"
proof -
  let ?st = "\<lparr>story = [], in_bullet_list = True, current_paragraph = []\<rparr>"
  have a3: "startswith (strip (str ''### X'')) (str ''###'')" by (simp add: eval_defs)
  have t3: "strip (drop 3 (strip (str ''### X''))) = str ''X''" by (simp add: eval_defs)
  from heading_levels [of "str ''### X''" "\<lambda>t s. t \<noteq> str ''<b>''" ?st] a3
  have "process_line (\<lambda>t s. t \<noteq> str ''<b>'') ?st (str ''### X'') =
        (if current_paragraph ?st \<noteq> [] \<and>
            \<not> (\<lambda>t s. t \<noteq> str ''<b>'') (join_space (current_paragraph ?st)) Body then Inl ValueError
         else if \<not> (\<lambda>t s. t \<noteq> str ''<b>'') (strip (drop 3 (strip (str ''### X'')))) Heading3 then Inl ValueError
         else Inr \<lparr>story = story ?st @
                     (if current_paragraph ?st = [] then []
                      else [Paragraph (join_space (current_paragraph ?st)) Body]) @
                     [Paragraph (strip (drop 3 (strip (str ''### X'')))) Heading3],
                   in_bullet_list = False, current_paragraph = []\<rparr>)"
    by blast
  with t3 have r3: "process_line (\<lambda>t s. t \<noteq> str ''<b>'') ?st (str ''### X'') =
     Inr \<lparr>story = [Paragraph (str ''X'') Heading3], in_bullet_list = False,
          current_paragraph = []\<rparr>" by (simp add: str_def)
  have a2: "startswith (strip (str ''## X'')) (str ''##'') \<and>
    \<not> startswith (strip (str ''## X'')) (str ''###'')" by (simp add: eval_defs)
  have t2: "strip (drop 2 (strip (str ''## X''))) = str ''X''" by (simp add: eval_defs)
  from heading_levels [of "str ''## X''" "\<lambda>t s. t \<noteq> str ''<b>''" ?st] a2
  have "process_line (\<lambda>t s. t \<noteq> str ''<b>'') ?st (str ''## X'') =
        (if current_paragraph ?st \<noteq> [] \<and>
            \<not> (\<lambda>t s. t \<noteq> str ''<b>'') (join_space (current_paragraph ?st)) Body then Inl ValueError
         else if \<not> (\<lambda>t s. t \<noteq> str ''<b>'') (strip (drop 2 (strip (str ''## X'')))) Heading2 then Inl ValueError
         else Inr \<lparr>story = story ?st @
                     (if current_paragraph ?st = [] then []
                      else [Paragraph (join_space (current_paragraph ?st)) Body]) @
                     [Paragraph (strip (drop 2 (strip (str ''## X'')))) Heading2],
                   in_bullet_list = False, current_paragraph = []\<rparr>)"
    by blast
  with t2 have r2: "process_line (\<lambda>t s. t \<noteq> str ''<b>'') ?st (str ''## X'') =
     Inr \<lparr>story = [Paragraph (str ''X'') Heading2], in_bullet_list = False,
          current_paragraph = []\<rparr>" by (simp add: str_def)
  have a1: "startswith (strip (str ''# X'')) (str ''#'') \<and>
    \<not> startswith (strip (str ''# X'')) (str ''##'') \<and>
    \<not> startswith (strip (str ''# X'')) (str ''# BOOK SUMMARY'')" by (simp add: eval_defs)
  have t1: "strip (drop 1 (strip (str ''# X''))) = str ''X''" by (simp add: eval_defs)
  from heading_levels [of "str ''# X''" "\<lambda>t s. t \<noteq> str ''<b>''" ?st] a1
  have "process_line (\<lambda>t s. t \<noteq> str ''<b>'') ?st (str ''# X'') =
        (if current_paragraph ?st \<noteq> [] \<and>
            \<not> (\<lambda>t s. t \<noteq> str ''<b>'') (join_space (current_paragraph ?st)) Body then Inl ValueError
         else if \<not> (\<lambda>t s. t \<noteq> str ''<b>'') (strip (drop 1 (strip (str ''# X'')))) Heading1 then Inl ValueError
         else Inr \<lparr>story = story ?st @
                     (if current_paragraph ?st = [] then []
                      else [Paragraph (join_space (current_paragraph ?st)) Body]) @
                     [Paragraph (strip (drop 1 (strip (str ''# X'')))) Heading1],
                   in_bullet_list = False, current_paragraph = []\<rparr>)"
    by blast
  with t1 have r1: "process_line (\<lambda>t s. t \<noteq> str ''<b>'') ?st (str ''# X'') =
     Inr \<lparr>story = [Paragraph (str ''X'') Heading1], in_bullet_list = False,
          current_paragraph = []\<rparr>" by (simp add: str_def)
  have a0: "startswith (strip (str ''# BOOK SUMMARY'')) (str ''# BOOK SUMMARY'')"
    by (simp add: eval_defs)
  from heading_levels [of "str ''# BOOK SUMMARY''" "\<lambda>t s. t \<noteq> str ''<b>''" ?st] a0
  have r0: "process_line (\<lambda>t s. t \<noteq> str ''<b>'') ?st (str ''# BOOK SUMMARY'') = Inr ?st" by blast
  have ab: "startswith (strip (str ''## <b>'')) (str ''##'') \<and>
    \<not> startswith (strip (str ''## <b>'')) (str ''###'')" by (simp add: eval_defs)
  have tb: "strip (drop 2 (strip (str ''## <b>''))) = str ''<b>''" by (simp add: eval_defs)
  from heading_levels [of "str ''## <b>''" "\<lambda>t s. t \<noteq> str ''<b>''" ?st] ab
  have "process_line (\<lambda>t s. t \<noteq> str ''<b>'') ?st (str ''## <b>'') =
        (if current_paragraph ?st \<noteq> [] \<and>
            \<not> (\<lambda>t s. t \<noteq> str ''<b>'') (join_space (current_paragraph ?st)) Body then Inl ValueError
         else if \<not> (\<lambda>t s. t \<noteq> str ''<b>'') (strip (drop 2 (strip (str ''## <b>'')))) Heading2 then Inl ValueError
         else Inr \<lparr>story = story ?st @
                     (if current_paragraph ?st = [] then []
                      else [Paragraph (join_space (current_paragraph ?st)) Body]) @
                     [Paragraph (strip (drop 2 (strip (str ''## <b>'')))) Heading2],
                   in_bullet_list = False, current_paragraph = []\<rparr>)"
    by blast
  with tb have rb: "process_line (\<lambda>t s. t \<noteq> str ''<b>'') ?st (str ''## <b>'') = Inl ValueError"
    by (simp add: str_def)
  from a3 r3 a2 r2 a1 r1 a0 r0 ab rb show ?thesis by blast
qed

text \<open>
  C8, as the claim states it, fails: a bullet line whose block text the constructor
  rejects raises, emits no block and sets no flag. On the line
  \<open>* **a <i>b** c</i>\<close> the bold transform itself produces the crossing tags the
  constructor rejects.
\<close>

theorem bullet_line_rejected:
  "process_bold_text (str ''**a <i>b** c</i>'') = str ''<b>a <i>b</b> c</i>'' \<and>
   process_content (\<lambda>t s. t \<noteq> 8226 # str '' <b>a <i>b</b> c</i>'') (str ''D'')
       (str ''* **a <i>b** c</i>'') = Inl ValueError"
  by (simp add: eval_defs)

text \<open>
  C8, amended. For every trimmed line that starts with \<open>*\<close> or \<open>-\<close>: one character
  is dropped and the remainder trimmed, the bold transform is applied, and the block
  text is the bullet glyph (code point 8226) and a space before the transformed text.
  Where the constructor accepts the pending paragraph, if there is one, and the block
  text, the pending paragraph is flushed, the Bullet block is emitted and
  \<open>in_bullet_list\<close> becomes true; where it rejects one of them the line raises its
  error.
\<close>

theorem bullet_rule:
  assumes "startswith (strip raw) (str ''*'') \<or> startswith (strip raw) (str ''-'')"
  shows "process_line accepts st raw =
           (if current_paragraph st \<noteq> [] \<and>
               \<not> accepts (join_space (current_paragraph st)) Body then Inl ValueError
            else if \<not> accepts (8226 # 32 # process_bold_text (strip (drop 1 (strip raw)))) Bullet then Inl ValueError
            else Inr \<lparr>story = story st @
                        (if current_paragraph st = [] then []
                         else [Paragraph (join_space (current_paragraph st)) Body]) @
                        [Paragraph (8226 # 32 # process_bold_text (strip (drop 1 (strip raw)))) Bullet],
                      in_bullet_list = True, current_paragraph = []\<rparr>)"
  by (simp only: bullet_line[OF assms] flush_then_emit_eq)

text \<open>The rule on the line \<open>* **Key:** value\<close>, with the fragment \<open>A\<close> pending.\<close>

theorem bullet_rule_witness:
  "(startswith (strip (str ''* **Key:** value'')) (str ''*'') \<or>
    startswith (strip (str ''* **Key:** value'')) (str ''-'')) \<and>
   process_line (\<lambda>t s. t \<noteq> str ''<b>'')
       \<lparr>story = [], in_bullet_list = False, current_paragraph = [str ''A'']\<rparr>
       (str ''* **Key:** value'') =
     Inr \<lparr>story = [Paragraph (str ''A'') Body,
                   Paragraph (8226 # str '' <b>Key:</b> value'') Bullet],
          in_bullet_list = True, current_paragraph = []\<rparr>"
proof -
  let ?st = "\<lparr>story = [], in_bullet_list = False, current_paragraph = [str ''A'']\<rparr>"
  have h: "startswith (strip (str ''* **Key:** value'')) (str ''*'') \<or>
    startswith (strip (str ''* **Key:** value'')) (str ''-'')" by (simp add: eval_defs)
  have b: "process_bold_text (strip (drop 1 (strip (str ''* **Key:** value'')))) =
    str ''<b>Key:</b> value''" by (simp add: eval_defs)
  from bullet_rule [OF h, of "\<lambda>t s. t \<noteq> str ''<b>''" ?st] b h show ?thesis by (simp add: str_def)
qed

text \<open>
  C9, as the claim states it, fails: the final flush builds its block with the
  constructor, and a buffer the constructor rejects makes the call raise, so that the
  buffer is not emitted. The document \<open><b>\<close> is one line of paragraph text.
\<close>

theorem final_buffer_rejected:
  "scan (\<lambda>t s. t \<noteq> str ''<b>'') (str ''D'') (str ''<b>'') =
     Inr \<lparr>story = [Paragraph (str ''eBook Summary'') Title, Spacer 1 20,
      Paragraph (str ''Generated on D'') Body, Spacer 1 30],
          in_bullet_list = False, current_paragraph = [str ''<b>'']\<rparr> \<and>
   process_content (\<lambda>t s. t \<noteq> str ''<b>'') (str ''D'') (str ''<b>'') = Inl ValueError"
  by (simp add: eval_defs)

text \<open>
  C9, amended. For every document that leaves the paragraph buffer non-empty after its
  last line: where the constructor accepts the buffer joined with spaces, the block
  sequence is the story of the line loop followed by one Paragraph block of the joined
  buffer, which is the last block, with no spacer after it; where the constructor
  rejects the joined buffer, processing raises its error. A document whose last line is
  paragraph text is such a document: where processing returns, the last block is a
  Paragraph whose last fragment is the transformed last line.
\<close>

theorem final_flush:
  "(scan accepts today text = Inr st \<and> current_paragraph st \<noteq> [] \<longrightarrow>
      process_content accepts today text =
        (if accepts (join_space (current_paragraph st)) Body
         then Inr (story st @ [Paragraph (join_space (current_paragraph st)) Body])
         else Inl ValueError)) \<and>
   (split_lines text = ls @ [l] \<and> strip l \<noteq> [] \<and> \<not> startswith (strip l) (str ''#'') \<and>
    \<not> startswith (strip l) (str ''*'') \<and> \<not> startswith (strip l) (str ''-'') \<and>
    \<not> startswith (strip l) (str ''>'') \<and>
    process_content accepts today text = Inr blocks \<longrightarrow>
      (\<exists>front buf. blocks =
         front @ [Paragraph (join_space (buf @ [process_bold_text (strip l)])) Body]))"
proof (intro conjI impI)
  assume "scan accepts today text = Inr st \<and> current_paragraph st \<noteq> []"
  then show "process_content accepts today text =
        (if accepts (join_space (current_paragraph st)) Body
         then Inr (story st @ [Paragraph (join_space (current_paragraph st)) Body])
         else Inl ValueError)"
    by (simp add: process_content_def flush_def build_paragraph_def)
next
  assume a: "split_lines text = ls @ [l] \<and> strip l \<noteq> [] \<and> \<not> startswith (strip l) (str ''#'') \<and>
    \<not> startswith (strip l) (str ''*'') \<and> \<not> startswith (strip l) (str ''-'') \<and>
    \<not> startswith (strip l) (str ''>'') \<and>
    process_content accepts today text = Inr blocks"
  then obtain st1 where st1: "scan accepts today text = Inr st1"
    by (auto simp add: process_content_def split: sum.splits)
  with a obtain st0 where st0: "initial_state accepts today text = Inr st0"
    "run_lines accepts st0 (ls @ [l]) = Inr st1"
    by (auto simp add: scan_def split: sum.splits)
  from st0(2) obtain st2 where st2: "run_lines accepts st0 ls = Inr st2"
    "process_line accepts st2 l = Inr st1"
    by (auto simp add: run_lines_snoc split: sum.splits)
  from a have "process_line accepts st2 l =
     Inr (st2\<lparr>story := story st2 @ (if in_bullet_list st2 then [Spacer 1 6] else []),
             in_bullet_list := False,
             current_paragraph := current_paragraph st2 @ [process_bold_text (strip l)]\<rparr>)"
    by (simp add: text_line)
  with st2(2) have cp: "current_paragraph st1 =
      current_paragraph st2 @ [process_bold_text (strip l)]"
    by auto
  with a st1 have "blocks =
      story st1 @
        [Paragraph (join_space (current_paragraph st2 @ [process_bold_text (strip l)]))
           Body]"
    by (auto simp add: process_content_def flush_def build_paragraph_def split: if_splits)
  then show "\<exists>front buf. blocks =
         front @ [Paragraph (join_space (buf @ [process_bold_text (strip l)])) Body]"
    by blast
qed

text \<open>The rule on the two-line document \<open>A\<close>, \<open>B\<close>, which has no final newline.\<close>

theorem final_flush_witness:
  "scan (\<lambda>t s. t \<noteq> str ''<b>'') (str ''D'') (str ''A'' @ 10 # str ''B'') =
     Inr \<lparr>story = [Paragraph (str ''eBook Summary'') Title, Spacer 1 20,
      Paragraph (str ''Generated on D'') Body, Spacer 1 30],
          in_bullet_list = False, current_paragraph = [str ''A'', str ''B'']\<rparr> \<and>
   split_lines (str ''A'' @ 10 # str ''B'') = [str ''A''] @ [str ''B''] \<and>
   strip (str ''B'') \<noteq> [] \<and> \<not> startswith (strip (str ''B'')) (str ''#'') \<and>
   \<not> startswith (strip (str ''B'')) (str ''*'') \<and> \<not> startswith (strip (str ''B'')) (str ''-'') \<and>
   \<not> startswith (strip (str ''B'')) (str ''>'') \<and>
   process_content (\<lambda>t s. t \<noteq> str ''<b>'') (str ''D'') (str ''A'' @ 10 # str ''B'') =
     Inr [Paragraph (str ''eBook Summary'') Title, Spacer 1 20,
      Paragraph (str ''Generated on D'') Body, Spacer 1 30,
      Paragraph (str ''A B'') Body]"
proof -
  let ?doc = "str ''A'' @ 10 # str ''B''"
  let ?st = "\<lparr>story = [Paragraph (str ''eBook Summary'') Title, Spacer 1 20,
      Paragraph (str ''Generated on D'') Body, Spacer 1 30],
          in_bullet_list = False, current_paragraph = [str ''A'', str ''B'']\<rparr>"
  let ?blocks = "[Paragraph (str ''eBook Summary'') Title, Spacer 1 20,
      Paragraph (str ''Generated on D'') Body, Spacer 1 30,
      Paragraph (str ''A B'') Body]"
  have s: "scan (\<lambda>t s. t \<noteq> str ''<b>'') (str ''D'') ?doc = Inr ?st"
    by (simp add: eval_defs)
  have g: "split_lines ?doc = [str ''A''] @ [str ''B''] \<and>
   strip (str ''B'') \<noteq> [] \<and> \<not> startswith (strip (str ''B'')) (str ''#'') \<and>
   \<not> startswith (strip (str ''B'')) (str ''*'') \<and> \<not> startswith (strip (str ''B'')) (str ''-'') \<and>
   \<not> startswith (strip (str ''B'')) (str ''>'')"
    by (simp add: eval_defs)
  from final_flush [of "\<lambda>t s. t \<noteq> str ''<b>''" "str ''D''" ?doc ?st] s
  have "process_content (\<lambda>t s. t \<noteq> str ''<b>'') (str ''D'') ?doc =
        (if (\<lambda>t s. t \<noteq> str ''<b>'') (join_space (current_paragraph ?st)) Body
         then Inr (story ?st @ [Paragraph (join_space (current_paragraph ?st)) Body])
         else Inl ValueError)"
    by simp
  then have r: "process_content (\<lambda>t s. t \<noteq> str ''<b>'') (str ''D'') ?doc = Inr ?blocks"
    by (simp add: str_def)
  from final_flush [of "\<lambda>t s. t \<noteq> str ''<b>''" "str ''D''" ?doc ?st "[str ''A'']" "str ''B''" ?blocks] g r
  have "\<exists>front buf. ?blocks =
         front @ [Paragraph (join_space (buf @ [process_bold_text (strip (str ''B''))])) Body]"
    by blast
  with s g r show ?thesis by blast
qed

text \<open>
  C10, as the claim states it, fails: processing raises where the constructor rejects a
  block text, and the parser catches nothing. A line of prose that names a tag is
  paragraph text the constructor rejects.
\<close>

theorem prose_with_tag_raises:
  "process_content
       (\<lambda>t s. t \<noteq> str ''Use the <br> tag for a line break.'') (str ''D'')
       (str ''Use the <br> tag for a line break.'') = Inl ValueError"
  by (simp add: eval_defs)

text \<open>
  C10, amended. The parser has no failure of its own: with a constructor that accepts
  every text, processing returns a block sequence for every input; with any
  constructor it returns that same sequence where the constructor accepts the text of
  every Paragraph in it, and raises the constructor's error otherwise. No line is
  rejected by the classification: every line that is not blank and starts with none of
  \<open>#\<close>, \<open>*\<close>, \<open>-\<close> and \<open>>\<close> is paragraph text, it emits at most the spacer
  that closes a bullet list, its bold-transformed text is appended to the paragraph
  buffer, and this step never raises. A document of such lines only yields the preamble
  and one Paragraph of all its transformed lines, joined with spaces, where the
  constructor accepts the title, the date line and that paragraph.
\<close>

theorem parser_total:
  "(\<exists>all_blocks. process_content (\<lambda>t s. True) today text = Inr all_blocks \<and>
      process_content accepts today text =
        (if \<forall>t s. Paragraph t s \<in> set all_blocks \<longrightarrow> accepts t s then Inr all_blocks
         else Inl ValueError)) \<and>
   (strip raw \<noteq> [] \<and> \<not> startswith (strip raw) (str ''#'') \<and>
   \<not> startswith (strip raw) (str ''*'') \<and> \<not> startswith (strip raw) (str ''-'') \<and>
   \<not> startswith (strip raw) (str ''>'') \<longrightarrow>
      process_line accepts st raw =
        Inr (st\<lparr>story := story st @ (if in_bullet_list st then [Spacer 1 6] else []),
               in_bullet_list := False,
               current_paragraph := current_paragraph st @ [process_bold_text (strip raw)]\<rparr>)) \<and>
   ((\<forall>l\<in>set (split_lines text). strip l \<noteq> [] \<and> \<not> startswith (strip l) (str ''#'') \<and>
      \<not> startswith (strip l) (str ''*'') \<and> \<not> startswith (strip l) (str ''-'') \<and>
      \<not> startswith (strip l) (str ''>'')) \<longrightarrow>
      process_content accepts today text =
        (if accepts (extract_title text) Title \<and>
            accepts (str ''Generated on '' @ today) Body \<and>
            accepts (join_space (map (\<lambda>l. process_bold_text (strip l)) (split_lines text)))
              Body
         then Inr [Paragraph (extract_title text) Title, Spacer 1 20,
                   Paragraph (str ''Generated on '' @ today) Body, Spacer 1 30,
                   Paragraph
                     (join_space (map (\<lambda>l. process_bold_text (strip l)) (split_lines text)))
                     Body]
         else Inl ValueError))"
proof (intro conjI impI)
  show "\<exists>all_blocks. process_content (\<lambda>t s. True) today text = Inr all_blocks \<and>
      process_content accepts today text =
        (if \<forall>t s. Paragraph t s \<in> set all_blocks \<longrightarrow> accepts t s then Inr all_blocks
         else Inl ValueError)"
    by (rule process_content_follows)
next
  assume "strip raw \<noteq> [] \<and> \<not> startswith (strip raw) (str ''#'') \<and>
   \<not> startswith (strip raw) (str ''*'') \<and> \<not> startswith (strip raw) (str ''-'') \<and>
   \<not> startswith (strip raw) (str ''>'')"
  then show "process_line accepts st raw =
        Inr (st\<lparr>story := story st @ (if in_bullet_list st then [Spacer 1 6] else []),
               in_bullet_list := False,
               current_paragraph := current_paragraph st @ [process_bold_text (strip raw)]\<rparr>)"
    by (simp add: text_line)
next
  assume a: "\<forall>l\<in>set (split_lines text). strip l \<noteq> [] \<and> \<not> startswith (strip l) (str ''#'') \<and>
      \<not> startswith (strip l) (str ''*'') \<and> \<not> startswith (strip l) (str ''-'') \<and>
      \<not> startswith (strip l) (str ''>'')"
  let ?st0 = "\<lparr>story = [Paragraph (extract_title text) Title, Spacer 1 20,
                 Paragraph (str ''Generated on '' @ today) Body, Spacer 1 30],
               in_bullet_list = False, current_paragraph = []\<rparr>"
  let ?buf = "map (\<lambda>l. process_bold_text (strip l)) (split_lines text)"
  have i: "initial_state accepts today text =
      (if accepts (extract_title text) Title \<and> accepts (str ''Generated on '' @ today) Body
       then Inr ?st0 else Inl ValueError)"
    by (simp add: initial_state_def build_paragraph_def)
  from a have r: "run_lines accepts ?st0 (split_lines text) =
      Inr (?st0\<lparr>current_paragraph := current_paragraph ?st0 @ ?buf\<rparr>)"
    by (intro run_lines_text_only) simp_all
  have n: "?buf \<noteq> []" by (simp add: split_lines_not_empty)
  from i r n show "process_content accepts today text =
        (if accepts (extract_title text) Title \<and>
            accepts (str ''Generated on '' @ today) Body \<and>
            accepts (join_space (map (\<lambda>l. process_bold_text (strip l)) (split_lines text)))
              Body
         then Inr [Paragraph (extract_title text) Title, Spacer 1 20,
                   Paragraph (str ''Generated on '' @ today) Body, Spacer 1 30,
                   Paragraph
                     (join_space (map (\<lambda>l. process_bold_text (strip l)) (split_lines text)))
                     Body]
         else Inl ValueError)"
    by (simp add: process_content_def scan_def flush_def build_paragraph_def)
qed

text \<open>
  The rule on the line \<open>plain **text**\<close> after a bullet, and on the documents
  \<open>one\<close>, \<open>two **x**\<close> and \<open>one\<close>, \<open><b>\<close>, both of text lines only.
\<close>

theorem parser_total_witness:
  "strip (str ''plain **text**'') \<noteq> [] \<and> \<not> startswith (strip (str ''plain **text**'')) (str ''#'') \<and>
   \<not> startswith (strip (str ''plain **text**'')) (str ''*'') \<and> \<not> startswith (strip (str ''plain **text**'')) (str ''-'') \<and>
   \<not> startswith (strip (str ''plain **text**'')) (str ''>'') \<and>
   process_line (\<lambda>t s. t \<noteq> str ''<b>'')
       \<lparr>story = [], in_bullet_list = True, current_paragraph = [str ''A'']\<rparr>
       (str ''plain **text**'') =
     Inr \<lparr>story = [Spacer 1 6], in_bullet_list = False,
          current_paragraph = [str ''A'', str ''plain <b>text</b>'']\<rparr> \<and>
   list_all (\<lambda>l. strip l \<noteq> [] \<and> \<not> startswith (strip l) (str ''#'') \<and>
      \<not> startswith (strip l) (str ''*'') \<and> \<not> startswith (strip l) (str ''-'') \<and>
      \<not> startswith (strip l) (str ''>'')) (split_lines (str ''one'' @ 10 # str ''two **x**'')) \<and>
   process_content (\<lambda>t s. t \<noteq> str ''<b>'') (str ''D'') (str ''one'' @ 10 # str ''two **x**'') =
     Inr [Paragraph (str ''eBook Summary'') Title, Spacer 1 20,
      Paragraph (str ''Generated on D'') Body, Spacer 1 30,
      Paragraph (str ''one two <b>x</b>'') Body] \<and>
   process_content (\<lambda>t s. True) (str ''D'') (str ''one'' @ 10 # str ''<b>'') =
     Inr [Paragraph (str ''eBook Summary'') Title, Spacer 1 20,
      Paragraph (str ''Generated on D'') Body, Spacer 1 30,
      Paragraph (str ''one <b>'') Body] \<and>
   process_content (\<lambda>t s. t \<noteq> str ''one <b>'') (str ''D'') (str ''one'' @ 10 # str ''<b>'') =
     Inl ValueError"
proof -
  let ?st = "\<lparr>story = [], in_bullet_list = True, current_paragraph = [str ''A'']\<rparr>"
  let ?doc = "str ''one'' @ 10 # str ''two **x**''"
  let ?bad = "str ''one'' @ 10 # str ''<b>''"
  have h: "strip (str ''plain **text**'') \<noteq> [] \<and> \<not> startswith (strip (str ''plain **text**'')) (str ''#'') \<and>
   \<not> startswith (strip (str ''plain **text**'')) (str ''*'') \<and> \<not> startswith (strip (str ''plain **text**'')) (str ''-'') \<and>
   \<not> startswith (strip (str ''plain **text**'')) (str ''>'')"
    by (simp add: eval_defs)
  have b: "process_bold_text (strip (str ''plain **text**'')) = str ''plain <b>text</b>''"
    by (simp add: eval_defs)
  from parser_total [of "[]" "[]" "\<lambda>t s. t \<noteq> str ''<b>''" "str ''plain **text**''" ?st] h
  have "process_line (\<lambda>t s. t \<noteq> str ''<b>'') ?st (str ''plain **text**'') =
        Inr (?st\<lparr>story := story ?st @ (if in_bullet_list ?st then [Spacer 1 6] else []),
           in_bullet_list := False,
           current_paragraph := current_paragraph ?st @
             [process_bold_text (strip (str ''plain **text**''))]\<rparr>)"
    by blast
  with b have p: "process_line (\<lambda>t s. t \<noteq> str ''<b>'') ?st (str ''plain **text**'') =
     Inr \<lparr>story = [Spacer 1 6], in_bullet_list = False,
          current_paragraph = [str ''A'', str ''plain <b>text</b>'']\<rparr>"
    by simp
  have d: "\<forall>l\<in>set (split_lines ?doc). strip l \<noteq> [] \<and> \<not> startswith (strip l) (str ''#'') \<and>
      \<not> startswith (strip l) (str ''*'') \<and> \<not> startswith (strip l) (str ''-'') \<and>
      \<not> startswith (strip l) (str ''>'')"
    by (simp add: eval_defs)
  have t: "extract_title ?doc = str ''eBook Summary''" by (simp add: eval_defs)
  have j: "join_space (map (\<lambda>l. process_bold_text (strip l)) (split_lines ?doc)) =
    str ''one two <b>x</b>''" by (simp add: eval_defs)
  from parser_total [of "str ''D''" ?doc "\<lambda>t s. t \<noteq> str ''<b>''" "[]" ?st] d
  have "process_content (\<lambda>t s. t \<noteq> str ''<b>'') (str ''D'') ?doc =
        (if (\<lambda>t s. t \<noteq> str ''<b>'') (extract_title ?doc) Title \<and>
            (\<lambda>t s. t \<noteq> str ''<b>'') (str ''Generated on '' @ str ''D'') Body \<and>
            (\<lambda>t s. t \<noteq> str ''<b>'') (join_space (map (\<lambda>l. process_bold_text (strip l)) (split_lines ?doc)))
              Body
         then Inr [Paragraph (extract_title ?doc) Title, Spacer 1 20,
                   Paragraph (str ''Generated on '' @ str ''D'') Body, Spacer 1 30,
                   Paragraph
                     (join_space (map (\<lambda>l. process_bold_text (strip l)) (split_lines ?doc)))
                     Body]
         else Inl ValueError)"
    by blast
  with t j have r: "process_content (\<lambda>t s. t \<noteq> str ''<b>'') (str ''D'') ?doc =
     Inr [Paragraph (str ''eBook Summary'') Title, Spacer 1 20,
      Paragraph (str ''Generated on D'') Body, Spacer 1 30,
      Paragraph (str ''one two <b>x</b>'') Body]"
    by (simp add: str_def)
  have e0: "process_content (\<lambda>t s. True) (str ''D'') ?bad =
     Inr [Paragraph (str ''eBook Summary'') Title, Spacer 1 20,
      Paragraph (str ''Generated on D'') Body, Spacer 1 30,
      Paragraph (str ''one <b>'') Body]"
    by (simp add: eval_defs)
  from parser_total [of "str ''D''" ?bad "\<lambda>t s. t \<noteq> str ''one <b>''" "[]" ?st] e0
  have e: "process_content (\<lambda>t s. t \<noteq> str ''one <b>'') (str ''D'') ?bad = Inl ValueError"
    by (auto simp add: str_def)
  from h p d r e0 e show ?thesis by (simp add: list_all_iff)
qed

end
